theory Spec2Isabelle
  imports Complex_Main
begin

section \<open>JavaScript built-ins used by the clock code\<close>

text \<open>
  Millisecond quantities (\<open>performance.now()\<close>, base durations, anchors) are JavaScript
  numbers; they are modelled as exact reals, so the rounding of double arithmetic is not
  part of the model. Whole seconds (the \<open>seconds\<close> and \<open>deltaSeconds\<close> payload fields,
  \<open>initialSeconds\<close>, the results of \<open>Math.floor\<close>) are modelled as integers, as the
  message interface declares them; integer arithmetic is what the code computes on the
  integers a double holds exactly, those of magnitude up to \<open>2^53\<close>.
\<close>

definition digit_char :: "nat \<Rightarrow> char" where
  "digit_char d = ''0123456789'' ! d"

text \<open>The decimal digits of a non-negative integer.\<close>

function toString_nat :: "nat \<Rightarrow> string" where
  "toString_nat n =
     (if n < 10 then [digit_char n] else toString_nat (n div 10) @ [digit_char (n mod 10)])"
  by pat_completeness auto
termination
  by (relation "measure id") auto

declare toString_nat.simps [simp del]

text \<open>
  A string the code builds from numbers: its characters, or \<open>Unmodelled\<close> for a text
  whose characters the model does not give. The model gives the text of the safe
  integers, those of magnitude up to \<open>2^53 - 1\<close>, which a double holds exactly.
\<close>

datatype js_string = Str string | Unmodelled

text \<open>
  \<open>Number.prototype.toString()\<close> on an integer. For a safe integer it writes the decimal
  digits, behind a minus sign when negative. Beyond, it writes the shortest digits that
  read back as the same double, and from \<open>1e21\<close> on it writes them in exponent notation
  (\<open>1.1805916207174113e+21\<close>): that text is \<open>Unmodelled\<close>.
\<close>

definition toString :: "int \<Rightarrow> js_string" where
  "toString i =
     (if 9007199254740991 < \<bar>i\<bar> then Unmodelled
      else if i < 0 then Str (CHR ''-'' # toString_nat (nat (- i)))
      else Str (toString_nat (nat i)))"

text \<open>\<open>String.prototype.padStart(n, c)\<close> with a one-character filler.\<close>

definition padStart :: "nat \<Rightarrow> char \<Rightarrow> string \<Rightarrow> string" where
  "padStart n c s = replicate (n - length s) c @ s"

text \<open>
  The same on a built string, and the concatenation a template literal does: a text with
  an unmodelled part is unmodelled.
\<close>

fun padStart_js :: "nat \<Rightarrow> char \<Rightarrow> js_string \<Rightarrow> js_string" where
  "padStart_js n c (Str s) = Str (padStart n c s)"
| "padStart_js n c Unmodelled = Unmodelled"

fun js_append :: "js_string \<Rightarrow> js_string \<Rightarrow> js_string" where
  "js_append (Str a) (Str b) = Str (a @ b)"
| "js_append a b = Unmodelled"

text \<open>
  The remainder operator \<open>%\<close> on integers with a positive divisor: the result has the sign
  of the dividend.
\<close>

definition js_rem :: "int \<Rightarrow> int \<Rightarrow> int" where
  "js_rem a b = (if a < 0 then - ((- a) mod b) else a mod b)"

section \<open>Store side: \<open>formatTime\<close> (src/lib/useBroadcastMatchTimer.ts)\<close>

text \<open>
  \<open>formatTime\<close>. On a safe integer the divisions, remainders and floors of the code are
  the integer ones. Beyond the safe integers they are double operations on a rounded
  argument, and the text is \<open>Unmodelled\<close>.
\<close>

definition formatTime :: "int \<Rightarrow> js_string" where
  "formatTime totalSeconds =
     (if 9007199254740991 < \<bar>totalSeconds\<bar> then Unmodelled
      else
        (let h = totalSeconds div 3600;
             m = js_rem totalSeconds 3600 div 60;
             s = js_rem totalSeconds 60
         in js_append (padStart_js 2 CHR ''0'' (toString h))
           (js_append (Str '':'')
           (js_append (padStart_js 2 CHR ''0'' (toString m))
           (js_append (Str '':'')
                      (padStart_js 2 CHR ''0'' (toString s)))))))"

section \<open>Kernel side: the time string of \<open>paint\<close> (CLOCK_WORKER_SCRIPT)\<close>

text \<open>
  The lookup table \<open>DIGITS\<close>: the sixty strings \<open>00\<close> .. \<open>59\<close>, built once;
  \<open>i.toString()\<close> of an index below sixty is its decimal digits.
\<close>

definition DIGITS :: "string list" where
  "DIGITS = map (\<lambda>i. padStart 2 CHR ''0'' (toString_nat i)) [0..<60]"

text \<open>
  \<open>DIGITS[k]\<close> inside the template literal: an index outside the table reads
  \<open>undefined\<close>, which the template renders as the word.
\<close>

definition DIGITS_at :: "int \<Rightarrow> string" where
  "DIGITS_at k = (if 0 \<le> k \<and> k < 60 then DIGITS ! nat k else ''undefined'')"

definition timeText :: "int \<Rightarrow> string" where
  "timeText displaySeconds =
     (let absSeconds = \<bar>displaySeconds\<bar>;
          h = DIGITS_at (absSeconds div 3600 mod 60);
          m = DIGITS_at (absSeconds mod 3600 div 60);
          s = DIGITS_at (absSeconds mod 60);
          prefix = (if displaySeconds < 0 then ''-'' else '''')
      in prefix @ h @ '':'' @ m @ '':'' @ s)"

section \<open>Specification-side vocabulary for display strings\<close>

text \<open>The two-digit, zero-padded decimal rendering of a number below one hundred.\<close>

definition two_digits :: "int \<Rightarrow> string" where
  "two_digits n = [digit_char (nat n div 10), digit_char (nat n mod 10)]"

text \<open>
  Splitting a string at every colon gives its fields; an unmodelled text has no fields to
  speak of.
\<close>

fun split_colon :: "string \<Rightarrow> string list" where
  "split_colon [] = [[]]"
| "split_colon (c # cs) =
     (if c = CHR '':'' then [] # split_colon cs
      else (case split_colon cs of f # fs \<Rightarrow> (c # f) # fs | [] \<Rightarrow> [[c]]))"

fun text_fields :: "js_string \<Rightarrow> string list" where
  "text_fields (Str s) = split_colon s"
| "text_fields Unmodelled = []"

definition is_digit :: "char \<Rightarrow> bool" where
  "is_digit c = (c \<in> set ''0123456789'')"

text \<open>
  An hours field as wide as the number needs: two zero-padded digits below one hundred,
  the plain decimal digits from one hundred on.
\<close>

definition hours_field :: "int \<Rightarrow> string" where
  "hours_field h = (if h < 100 then two_digits h else toString_nat (nat h))"

section \<open>The timer kernel (CLOCK_WORKER_SCRIPT in src/hooks/useBroadcastMatchTimer.ts)\<close>

record config =
  backgroundColor :: string
  textColor :: string
  fontFamily :: string
  glowEffect :: bool
  showDot :: bool

text \<open>What one successful \<open>paint\<close> puts on the surface: the text and whether the dot is drawn.\<close>

record frame =
  drawn :: string
  dotShown :: bool

text \<open>
  The script's globals (\<open>canvas\<close>, \<open>ctx\<close>, \<open>animationFrameId\<close>) and its \<open>state\<close> object.
  \<open>config\<close> is \<open>None\<close> when the script has stored \<open>undefined\<close> there. The browser's
  side is explicit: \<open>rafCounter\<close> and \<open>rafPending\<close> are the frame requests handed out and
  still pending, \<open>paintCalls\<close> lists the argument of every call of \<open>paint\<close>, and \<open>frames\<close>
  lists what \<open>fillText\<close> has drawn.
\<close>

record kstate =
  canvas :: "(real \<times> real) option"
  ctx :: bool
  animationFrameId :: "nat option"
  baseTimeMs :: real
  startTimeMs :: real
  isRunning :: bool
  lastRenderedSecond :: int
  width :: real
  height :: real
  dpr :: real
  config :: "config option"
  rafCounter :: nat
  rafPending :: "nat list"
  paintCalls :: "int list"
  frames :: "frame list"

definition default_config :: config where
  "default_config =
     \<lparr>backgroundColor = ''#0f172a'', textColor = ''#22c55e'',
      fontFamily = [CHR 0x27] @ ''Courier New'' @ [CHR 0x27] @ '', monospace'',
      glowEffect = True, showDot = True\<rparr>"

definition initial_state :: kstate where
  "initial_state =
     \<lparr>canvas = None, ctx = False, animationFrameId = None,
      baseTimeMs = 0, startTimeMs = 0, isRunning = False, lastRenderedSecond = - 1,
      width = 0, height = 0, dpr = 1, config = Some default_config,
      rafCounter = 0, rafPending = [], paintCalls = [], frames = []\<rparr>"

datatype jserror = TypeError | Error string

text \<open>A handler either returns or throws; the globals keep what was written before the throw.\<close>

datatype outcome = Returned kstate | Threw jserror kstate

fun state_of :: "outcome \<Rightarrow> kstate" where
  "state_of (Returned st) = st"
| "state_of (Threw e st) = st"

fun threw :: "outcome \<Rightarrow> bool" where
  "threw (Returned st) = False"
| "threw (Threw e st) = True"

fun and_then :: "outcome \<Rightarrow> (kstate \<Rightarrow> outcome) \<Rightarrow> outcome" where
  "and_then (Returned st) f = f st"
| "and_then (Threw e st) f = Threw e st"

text \<open>\<open>animationFrameId = requestAnimationFrame(loop)\<close> and \<open>cancelAnimationFrame(id)\<close>.\<close>

definition requestAnimationFrame :: "kstate \<Rightarrow> kstate" where
  "requestAnimationFrame st =
     (let i = rafCounter st + 1
      in st\<lparr>rafCounter := i, rafPending := rafPending st @ [i], animationFrameId := Some i\<rparr>)"

definition cancelAnimationFrame :: "kstate \<Rightarrow> nat \<Rightarrow> kstate" where
  "cancelAnimationFrame st i = st\<lparr>rafPending := removeAll i (rafPending st)\<rparr>"

text \<open>
  \<open>paint\<close>: the safety check, then the drawing. Reading \<open>config.backgroundColor\<close> throws when
  \<open>config\<close> is \<open>undefined\<close>. Colours, font and glow do not reach the model's frame.
\<close>

definition paint :: "kstate \<Rightarrow> int \<Rightarrow> outcome" where
  "paint st displaySeconds =
     (let st1 = st\<lparr>paintCalls := paintCalls st @ [displaySeconds]\<rparr>
      in if \<not> ctx st1 \<or> width st1 = 0 \<or> height st1 = 0 then Returned st1
         else (case config st1 of
                 None \<Rightarrow> Threw TypeError st1
               | Some cfg \<Rightarrow>
                   Returned (st1\<lparr>frames := frames st1 @
                     [\<lparr>drawn = timeText displaySeconds,
                       dotShown = (showDot cfg \<and> \<bar>displaySeconds\<bar> mod 2 = 0)\<rparr>]\<rparr>)))"

definition loop :: "kstate \<Rightarrow> real \<Rightarrow> outcome" where
  "loop st now =
     (if \<not> isRunning st then Returned st
      else
        (let elapsedMs = now - startTimeMs st;
             totalMs = baseTimeMs st + elapsedMs;
             currentSecond = \<lfloor>totalMs / 1000\<rfloor>
         in and_then
              (if currentSecond \<noteq> lastRenderedSecond st
               then paint (st\<lparr>lastRenderedSecond := currentSecond\<rparr>) currentSecond
               else Returned st)
              (\<lambda>st'. Returned (requestAnimationFrame st'))))"

text \<open>
  A message is \<open>e.data\<close>. \<open>NoData\<close> is a message whose data is \<open>undefined\<close>; \<open>Tagged ty\<close>
  is \<open>{ type: ty }\<close> with no payload (START and PAUSE are sent so); the other
  constructors carry a payload with the fields the handler reads, typed as the callers in
  MissionClock build them.
\<close>

datatype message =
    NoData
  | Tagged string
  | INIT "real \<times> real" bool config int
  | RESIZE real real real
  | UPDATE_CONFIG config
  | SET_TIME int
  | ADJUST_TIME int

abbreviation START :: message where
  "START \<equiv> Tagged ''START''"

abbreviation PAUSE :: message where
  "PAUSE \<equiv> Tagged ''PAUSE''"

text \<open>
  \<open>self.onmessage\<close>, with \<open>now\<close> the value \<open>performance.now()\<close> returns during the call.
  Destructuring \<open>undefined\<close> and reading a field of an \<open>undefined\<close> payload throw.
\<close>

fun onmessage :: "kstate \<Rightarrow> real \<Rightarrow> message \<Rightarrow> outcome" where
  "onmessage st now NoData = Threw TypeError st"
| "onmessage st now (INIT cv has2d cfg initialSeconds) =
     paint (st\<lparr>canvas := Some cv, ctx := has2d, config := Some cfg,
               baseTimeMs := real_of_int initialSeconds * 1000,
               lastRenderedSecond := initialSeconds\<rparr>) initialSeconds"
| "onmessage st now (RESIZE w h d) =
     (let st1 = st\<lparr>canvas := (case canvas st of None \<Rightarrow> None | Some cv \<Rightarrow> Some (w, h)),
                    width := w, height := h, dpr := d\<rparr>
      in if lastRenderedSecond st1 \<ge> 0 then paint st1 (lastRenderedSecond st1)
         else Returned st1)"
| "onmessage st now (UPDATE_CONFIG cfg) =
     (let st1 = st\<lparr>config := Some cfg\<rparr>
      in if lastRenderedSecond st1 \<ge> 0 then paint st1 (lastRenderedSecond st1)
         else Returned st1)"
| "onmessage st now (SET_TIME seconds) =
     (let st1 = st\<lparr>baseTimeMs := real_of_int seconds * 1000\<rparr>;
          st2 = (if isRunning st1 then st1\<lparr>startTimeMs := now\<rparr> else st1);
          st3 = st2\<lparr>lastRenderedSecond := seconds\<rparr>
      in paint st3 seconds)"
| "onmessage st now (ADJUST_TIME deltaSeconds) =
     (let st1 = st\<lparr>baseTimeMs := baseTimeMs st + real_of_int deltaSeconds * 1000\<rparr>;
          currentTotalMs =
            (if isRunning st1 then baseTimeMs st1 + (now - startTimeMs st1)
             else baseTimeMs st1);
          newSecond = \<lfloor>currentTotalMs / 1000\<rfloor>;
          st2 = st1\<lparr>lastRenderedSecond := newSecond\<rparr>
      in paint st2 newSecond)"
| "onmessage st now (Tagged ty) =
     (if ty = ''INIT'' then Threw TypeError st
      else if ty = ''RESIZE'' then Threw TypeError st
      else if ty = ''UPDATE_CONFIG'' then
        (let st1 = st\<lparr>config := None\<rparr>
         in if lastRenderedSecond st1 \<ge> 0 then paint st1 (lastRenderedSecond st1)
            else Returned st1)
      else if ty = ''START'' then
        (if isRunning st then Returned st
         else Returned (requestAnimationFrame (st\<lparr>isRunning := True, startTimeMs := now\<rparr>)))
      else if ty = ''PAUSE'' then
        (if \<not> isRunning st then Returned st
         else
           (let st1 = st\<lparr>isRunning := False\<rparr>;
                st2 = (case animationFrameId st1 of
                         None \<Rightarrow> st1
                       | Some i \<Rightarrow> cancelAnimationFrame st1 i)
            in Returned (st2\<lparr>baseTimeMs := baseTimeMs st2 + (now - startTimeMs st2)\<rparr>)))
      else if ty = ''SET_TIME'' then Threw TypeError st
      else if ty = ''ADJUST_TIME'' then Threw TypeError st
      else Returned st)"

text \<open>
  The worker handles its messages in order; an exception thrown by one handler call is
  reported on the worker and the next message is handled on the globals as they were left.
\<close>

fun handle_all :: "kstate \<Rightarrow> (real \<times> message) list \<Rightarrow> kstate" where
  "handle_all st [] = st"
| "handle_all st ((now, m) # ms) = handle_all (state_of (onmessage st now m)) ms"

text \<open>A run of the render loop at the successive frame times.\<close>

fun loop_all :: "kstate \<Rightarrow> real list \<Rightarrow> kstate" where
  "loop_all st [] = st"
| "loop_all st (now # nows) = loop_all (state_of (loop st now)) nows"

section \<open>The reconciliation store (src/lib/useBroadcastMatchTimer.ts)\<close>

text \<open>The snapshot handed to React; \<open>snap_isRunning\<close> is its field \<open>isRunning\<close>.\<close>

record TimerState =
  displayTime :: js_string
  totalSeconds :: int
  snap_isRunning :: bool

text \<open>
  The object behind \<open>store.current\<close>; \<open>s_startTimeMs\<close> and \<open>s_isRunning\<close> are its fields
  \<open>startTimeMs\<close> and \<open>isRunning\<close>. \<open>worker\<close> tells whether the worker reference is
  non-null and \<open>listeners\<close> holds the subscribed callbacks in insertion order. What the
  code does to its surroundings is explicit: \<open>snapshotId\<close> counts the assignments to
  \<open>snapshot\<close> (the identity of the snapshot object), \<open>posted\<close> lists the type tags posted
  to the worker, \<open>notified\<close> lists the listener calls, and \<open>consoleErrors\<close> lists the
  messages given to \<open>console.error\<close>.
\<close>

record store =
  baseDurationMs :: real
  s_startTimeMs :: real
  s_isRunning :: bool
  snapshot :: TimerState
  worker :: bool
  listeners :: "nat list"
  snapshotId :: nat
  posted :: "string list"
  notified :: "nat list"
  consoleErrors :: "string list"

definition init_store :: "int \<Rightarrow> store" where
  "init_store initialSeconds =
     \<lparr>baseDurationMs = real_of_int initialSeconds * 1000,
      s_startTimeMs = 0,
      s_isRunning = False,
      snapshot = \<lparr>displayTime = formatTime initialSeconds,
                  totalSeconds = initialSeconds,
                  snap_isRunning = False\<rparr>,
      worker = False,
      listeners = [],
      snapshotId = 0, posted = [], notified = [], consoleErrors = []\<rparr>"

text \<open>\<open>calculateState\<close>; \<open>now\<close> is what \<open>performance.now()\<close> returns if it is read.\<close>

definition calculateState :: "store \<Rightarrow> real \<Rightarrow> TimerState" where
  "calculateState s now =
     (let currentTotalMs =
            (if s_isRunning s then baseDurationMs s + (now - s_startTimeMs s)
             else baseDurationMs s);
          totalSeconds = max 0 \<lfloor>currentTotalMs / 1000\<rfloor>
      in \<lparr>displayTime = formatTime totalSeconds,
          totalSeconds = totalSeconds,
          snap_isRunning = s_isRunning s\<rparr>)"

definition emitChange :: "store \<Rightarrow> real \<Rightarrow> store" where
  "emitChange s now =
     (let newState = calculateState s now;
          oldState = snapshot s
      in if totalSeconds newState \<noteq> totalSeconds oldState
            \<or> snap_isRunning newState \<noteq> snap_isRunning oldState
         then s\<lparr>snapshot := newState,
                snapshotId := snapshotId s + 1,
                notified := notified s @ listeners s\<rparr>
         else s)"

definition subscribe :: "store \<Rightarrow> nat \<Rightarrow> store" where
  "subscribe s listener =
     s\<lparr>listeners := (if listener \<in> set (listeners s) then listeners s
                      else listeners s @ [listener])\<rparr>"

definition getSnapshot :: "store \<Rightarrow> TimerState" where
  "getSnapshot s = snapshot s"

text \<open>\<open>s.worker?.postMessage({ type: ty })\<close>: nothing is sent through a null reference.\<close>

definition postMessage :: "store \<Rightarrow> string \<Rightarrow> store" where
  "postMessage s ty = (if worker s then s\<lparr>posted := posted s @ [ty]\<rparr> else s)"

text \<open>
  The body of the worker-lifecycle effect. \<open>created\<close> is what creating the blob URL and
  the worker gives: the exception thrown, or the worker. The \<open>catch\<close> block logs the
  exception and the effect returns normally; the worker reference is assigned only after
  a successful construction.
\<close>

definition mount :: "jserror + unit \<Rightarrow> store \<Rightarrow> store" where
  "mount created s =
     (case created of
        Inl err \<Rightarrow> s\<lparr>consoleErrors := consoleErrors s @ [''Clock Worker Init Failed:'']\<rparr>
      | Inr w \<Rightarrow> s\<lparr>worker := True\<rparr>)"

text \<open>The handler installed on the worker: a TICK wakes the store.\<close>

definition worker_onmessage :: "store \<Rightarrow> string \<Rightarrow> real \<Rightarrow> store" where
  "worker_onmessage s ty now = (if ty = ''TICK'' then emitChange s now else s)"

text \<open>
  The actions. \<open>now\<close> is the clock reading taken by the action itself, \<open>now2\<close> the later
  reading taken inside \<open>calculateState\<close>.
\<close>

definition start :: "store \<Rightarrow> real \<Rightarrow> real \<Rightarrow> store" where
  "start s now now2 =
     (if s_isRunning s then s
      else emitChange (postMessage (s\<lparr>s_isRunning := True, s_startTimeMs := now\<rparr>) ''START'')
             now2)"

definition pause :: "store \<Rightarrow> real \<Rightarrow> store" where
  "pause s now =
     (if \<not> s_isRunning s then s
      else emitChange
             (postMessage
                (s\<lparr>baseDurationMs := baseDurationMs s + (now - s_startTimeMs s),
                   s_isRunning := False\<rparr>) ''STOP'')
             now)"

definition setTime :: "store \<Rightarrow> int \<Rightarrow> real \<Rightarrow> real \<Rightarrow> store" where
  "setTime s seconds now now2 =
     (let s1 = s\<lparr>baseDurationMs := real_of_int seconds * 1000\<rparr>;
          s2 = (if s_isRunning s1 then s1\<lparr>s_startTimeMs := now\<rparr> else s1)
      in emitChange s2 now2)"

datatype action = Start real real | Pause real | SetTime int real real

fun perform :: "store \<Rightarrow> action \<Rightarrow> store" where
  "perform s (Start now now2) = start s now now2"
| "perform s (Pause now) = pause s now"
| "perform s (SetTime seconds now now2) = setTime s seconds now now2"

fun perform_all :: "store \<Rightarrow> action list \<Rightarrow> store" where
  "perform_all s [] = s"
| "perform_all s (a # as) = perform_all (perform s a) as"

text \<open>A run of wake signals arriving at the successive times.\<close>

fun tick_all :: "store \<Rightarrow> real list \<Rightarrow> store" where
  "tick_all s [] = s"
| "tick_all s (now # nows) = tick_all (worker_onmessage s ''TICK'' now) nows"

section \<open>The elapsed-time formula of the specification\<close>

text \<open>
  Invariant I1 in the specification's words: the total is the base duration, plus the time
  since the anchor while running.
\<close>

definition kernel_totalMs :: "kstate \<Rightarrow> real \<Rightarrow> real" where
  "kernel_totalMs st now =
     baseTimeMs st + (if isRunning st then now - startTimeMs st else 0)"

definition store_totalMs :: "store \<Rightarrow> real \<Rightarrow> real" where
  "store_totalMs s now =
     baseDurationMs s + (if s_isRunning s then now - s_startTimeMs s else 0)"

text \<open>The whole second of that total, as the kernel's loop computes it.\<close>

definition kernel_second :: "kstate \<Rightarrow> real \<Rightarrow> int" where
  "kernel_second st now = \<lfloor>kernel_totalMs st now / 1000\<rfloor>"

text \<open>The frame one \<open>paint\<close> of display second \<open>d\<close> draws under configuration \<open>cfg\<close>.\<close>

definition painted_frame :: "config \<Rightarrow> int \<Rightarrow> frame" where
  "painted_frame cfg d =
     \<lparr>drawn = timeText d, dotShown = (showDot cfg \<and> \<bar>d\<bar> mod 2 = 0)\<rparr>"

text \<open>The surface is ready: a context, a sized surface and a configuration.\<close>

definition surface_ready :: "kstate \<Rightarrow> config \<Rightarrow> bool" where
  "surface_ready st cfg =
     (ctx st \<and> width st \<noteq> 0 \<and> height st \<noteq> 0 \<and> config st = Some cfg)"

text \<open>The cached snapshot carries the running flag of the store.\<close>

definition flag_cached :: "store \<Rightarrow> bool" where
  "flag_cached s = (snap_isRunning (snapshot s) = s_isRunning s)"

section \<open>Decimal rendering\<close>

lemma toString_nat_lt10: "n < 10 \<Longrightarrow> toString_nat n = [digit_char n]"
  by (simp add: toString_nat.simps)

lemma toString_nat_lt100:
  "10 \<le> n \<Longrightarrow> n < 100 \<Longrightarrow> toString_nat n = [digit_char (n div 10), digit_char (n mod 10)]"
  by (subst toString_nat.simps) (simp add: toString_nat_lt10)

lemma digit_char_0: "digit_char 0 = CHR ''0''"
  by (simp add: digit_char_def)

lemma pad2_toString_nat:
  assumes "n < 100"
  shows "padStart 2 CHR ''0'' (toString_nat n) = [digit_char (n div 10), digit_char (n mod 10)]"
proof (cases "n < 10")
  case True
  then show ?thesis by (simp add: padStart_def toString_nat_lt10 digit_char_0)
next
  case False
  with assms show ?thesis by (simp add: padStart_def toString_nat_lt100)
qed

lemma DIGITS_nth: "k < 60 \<Longrightarrow> DIGITS ! k = [digit_char (k div 10), digit_char (k mod 10)]"
  by (simp add: DIGITS_def pad2_toString_nat)


section \<open>The store's display string\<close>

lemma is_digit_digit_char: "d < 10 \<Longrightarrow> is_digit (digit_char d)"
proof -
  assume "d < 10"
  then have "d \<in> {0,1,2,3,4,5,6,7,8,9}" by auto
  then show ?thesis by (auto simp: is_digit_def digit_char_def)
qed

lemma toString_nat_digits: "\<forall>c\<in>set (toString_nat n). is_digit c"
proof (induction n rule: toString_nat.induct)
  case (1 n)
  show ?case
  proof (cases "n < 10")
    case True
    then show ?thesis by (simp add: toString_nat_lt10 is_digit_digit_char)
  next
    case False
    then have "toString_nat n = toString_nat (n div 10) @ [digit_char (n mod 10)]"
      by (subst toString_nat.simps) simp
    with 1 False show ?thesis by (simp add: is_digit_digit_char)
  qed
qed

lemma toString_nat_nonempty: "toString_nat n \<noteq> []"
  by (subst toString_nat.simps) simp

lemma toString_nat_long: "100 \<le> n \<Longrightarrow> 3 \<le> length (toString_nat n)"
proof -
  assume h: "100 \<le> n"
  then have a: "toString_nat n = toString_nat (n div 10) @ [digit_char (n mod 10)]"
    by (subst toString_nat.simps) simp
  from h have "\<not> n div 10 < 10" by linarith
  then have b: "toString_nat (n div 10) =
                 toString_nat (n div 10 div 10) @ [digit_char (n div 10 mod 10)]"
    by (subst toString_nat.simps) simp
  have "1 \<le> length (toString_nat (n div 10 div 10))"
    using toString_nat_nonempty [of "n div 10 div 10"]
    by (cases "toString_nat (n div 10 div 10)") auto
  with a b show ?thesis by simp
qed

lemma not_digit_colon: "\<not> is_digit CHR '':''"
  by (simp add: is_digit_def)

lemma split_no_colon: "\<forall>c\<in>set xs. is_digit c \<Longrightarrow> split_colon xs = [xs]"
  by (induction xs) (auto simp: not_digit_colon)

lemma split_append_colon:
  "\<forall>c\<in>set xs. is_digit c \<Longrightarrow> split_colon (xs @ CHR '':'' # ys) = xs # split_colon ys"
  by (induction xs) (auto simp: not_digit_colon)

lemma is_digit_two_digits: "0 \<le> k \<Longrightarrow> k < 100 \<Longrightarrow> \<forall>c\<in>set (two_digits k). is_digit c"
  by (simp add: two_digits_def is_digit_digit_char)

lemma pad2_toString:
  "0 \<le> k \<Longrightarrow> k < 100 \<Longrightarrow> padStart_js 2 CHR ''0'' (toString k) = Str (two_digits k)"
  by (simp add: toString_def two_digits_def pad2_toString_nat)

lemma pad2_toString_big:
  "100 \<le> k \<Longrightarrow> k \<le> 9007199254740991 \<Longrightarrow>
     padStart_js 2 CHR ''0'' (toString k) = Str (toString_nat (nat k))"
proof -
  assume h: "100 \<le> k" and b: "k \<le> 9007199254740991"
  then have "100 \<le> nat k" by simp
  then have "3 \<le> length (toString_nat (nat k))" by (rule toString_nat_long)
  then have "2 - length (toString_nat (nat k)) = 0" by simp
  with h b show ?thesis by (simp add: toString_def padStart_def)
qed

lemma hours_field_digits: "0 \<le> h \<Longrightarrow> \<forall>c\<in>set (hours_field h). is_digit c"
  using toString_nat_digits is_digit_two_digits by (simp add: hours_field_def)

lemma formatTime_nonneg:
  assumes "0 \<le> ts" and "ts \<le> 9007199254740991"
  shows "formatTime ts =
           Str (hours_field (ts div 3600) @ '':'' @ two_digits (ts mod 3600 div 60) @ '':'' @
                two_digits (ts mod 60))"
proof -
  have "ts mod 3600 < 3600" by simp
  then have m1: "ts mod 3600 div 60 < 100" by linarith
  have m0: "0 \<le> ts mod 3600 div 60" by (simp add: pos_imp_zdiv_nonneg_iff)
  have s1: "ts mod 60 < 100" using pos_mod_bound [of 60 ts] by linarith
  have h0: "0 \<le> ts div 3600" using assms by (simp add: pos_imp_zdiv_nonneg_iff)
  have h1: "ts div 3600 \<le> 9007199254740991" using assms by linarith
  have hh: "padStart_js 2 CHR ''0'' (toString (ts div 3600)) = Str (hours_field (ts div 3600))"
    using h0 h1 by (simp add: hours_field_def pad2_toString pad2_toString_big)
  show ?thesis
    using assms m0 m1 s1 by (simp add: formatTime_def js_rem_def Let_def hh pad2_toString)
qed

text \<open>
  C10, as the code has it. For every non-negative safe integer \<open>totalSeconds\<close> (up to
  \<open>2^53 - 1\<close>), the string of \<open>formatTime\<close> has exactly three
  colon-separated fields of decimal digits; the minutes and seconds fields are two
  zero-padded digits; the hours field is \<open>floor(t / 3600)\<close> padded to at least two digits,
  so it has exactly two digits precisely below 100 hours (360000 seconds) and more from
  there on.
\<close>

theorem formatTime_fields:
  "0 \<le> ts \<and> ts \<le> 9007199254740991 \<longrightarrow>
     formatTime ts =
       Str (hours_field (ts div 3600) @ '':'' @ two_digits (ts mod 3600 div 60) @ '':'' @
            two_digits (ts mod 60))
     \<and> text_fields (formatTime ts) =
       [hours_field (ts div 3600), two_digits (ts mod 3600 div 60), two_digits (ts mod 60)]
     \<and> (\<forall>c\<in>set (hours_field (ts div 3600)). is_digit c)
     \<and> (\<forall>c\<in>set (two_digits (ts mod 3600 div 60)). is_digit c)
     \<and> (\<forall>c\<in>set (two_digits (ts mod 60)). is_digit c)
     \<and> length (two_digits (ts mod 3600 div 60)) = 2
     \<and> length (two_digits (ts mod 60)) = 2
     \<and> 2 \<le> length (hours_field (ts div 3600))
     \<and> (length (hours_field (ts div 3600)) = 2 \<longleftrightarrow> ts < 360000)"
proof
  assume range: "0 \<le> ts \<and> ts \<le> 9007199254740991"
  then have nonneg: "0 \<le> ts" and safe: "ts \<le> 9007199254740991" by blast+
  have h0: "0 \<le> ts div 3600" using nonneg by (simp add: pos_imp_zdiv_nonneg_iff)
  have d: "\<forall>c\<in>set (hours_field (ts div 3600)). is_digit c"
    using h0 by (rule hours_field_digits)
  have "ts mod 3600 < 3600" by simp
  then have m1: "ts mod 3600 div 60 < 100" by linarith
  have m0: "0 \<le> ts mod 3600 div 60" by (simp add: pos_imp_zdiv_nonneg_iff)
  have dm: "\<forall>c\<in>set (two_digits (ts mod 3600 div 60)). is_digit c"
    using m0 m1 by (rule is_digit_two_digits)
  have s1: "ts mod 60 < 100" using pos_mod_bound [of 60 ts] by linarith
  have ds: "\<forall>c\<in>set (two_digits (ts mod 60)). is_digit c"
    using _ s1 by (rule is_digit_two_digits) simp
  have str: "formatTime ts =
       Str (hours_field (ts div 3600) @ '':'' @ two_digits (ts mod 3600 div 60) @ '':'' @
            two_digits (ts mod 60))"
    using nonneg safe by (rule formatTime_nonneg)
  have split: "text_fields (formatTime ts) =
           [hours_field (ts div 3600), two_digits (ts mod 3600 div 60), two_digits (ts mod 60)]"
    using d dm ds
    by (simp only: str text_fields.simps append_Cons append_Nil
          split_append_colon split_no_colon)
  have big: "100 \<le> ts div 3600 \<Longrightarrow> 3 \<le> length (toString_nat (nat (ts div 3600)))"
    using toString_nat_long [of "nat (ts div 3600)"] by simp
  have iff: "ts div 3600 < 100 \<longleftrightarrow> ts < 360000" by linarith
  have len2: "2 \<le> length (hours_field (ts div 3600))"
    using big by (auto simp: hours_field_def two_digits_def)
  have len_iff: "length (hours_field (ts div 3600)) = 2 \<longleftrightarrow> ts < 360000"
    using big iff by (auto simp: hours_field_def two_digits_def)
  have lens: "length (two_digits (ts mod 3600 div 60)) = 2" "length (two_digits (ts mod 60)) = 2"
    by (simp_all add: two_digits_def)
  from str split d dm ds lens len2 len_iff
  show "formatTime ts =
       Str (hours_field (ts div 3600) @ '':'' @ two_digits (ts mod 3600 div 60) @ '':'' @
            two_digits (ts mod 60))
     \<and> text_fields (formatTime ts) =
       [hours_field (ts div 3600), two_digits (ts mod 3600 div 60), two_digits (ts mod 60)]
     \<and> (\<forall>c\<in>set (hours_field (ts div 3600)). is_digit c)
     \<and> (\<forall>c\<in>set (two_digits (ts mod 3600 div 60)). is_digit c)
     \<and> (\<forall>c\<in>set (two_digits (ts mod 60)). is_digit c)
     \<and> length (two_digits (ts mod 3600 div 60)) = 2
     \<and> length (two_digits (ts mod 60)) = 2
     \<and> 2 \<le> length (hours_field (ts div 3600))
     \<and> (length (hours_field (ts div 3600)) = 2 \<longleftrightarrow> ts < 360000)"
    by blast
qed

theorem formatTime_fields_witness:
  "(0::int) \<le> 3725 \<and> (3725::int) \<le> 9007199254740991
   \<and> formatTime 3725 = Str ''01:02:05''
   \<and> text_fields (formatTime 3725) = [''01'', ''02'', ''05'']
   \<and> text_fields (formatTime 9007199254740991) = [''2501999792983'', ''36'', ''31'']"
proof -
  have big: "toString_nat 2501999792983 = ''2501999792983''"
    by (simp add: toString_nat.simps digit_char_def)
  show ?thesis
    using formatTime_fields [of 3725] formatTime_fields [of 9007199254740991] big
    by (simp add: hours_field_def two_digits_def digit_char_def)
qed

text \<open>At 100 hours the hours field has three digits.\<close>

theorem formatTime_hundred_hours:
  "formatTime 360000 = Str ''100:00:00''
   \<and> length (hd (text_fields (formatTime 360000))) \<noteq> 2"
  by (simp add: formatTime_def js_rem_def toString_def padStart_def toString_nat.simps
        digit_char_def)

section \<open>Clock arithmetic of the kernel and the store\<close>

lemma ms_split: "(real_of_int n * 1000 + d) / 1000 = real_of_int n + d / 1000" 
  by (simp add: add_divide_distrib)

lemma floor_ms_shift: "\<lfloor>(real_of_int n * 1000 + d) / 1000\<rfloor> = n + \<lfloor>d / 1000\<rfloor>"
  unfolding ms_split by (rule int_add_floor[symmetric])

lemma floor_ms_plus: "\<lfloor>(b + real_of_int k * 1000) / 1000\<rfloor> = \<lfloor>b / 1000\<rfloor> + k"
proof -
  have e: "b + real_of_int k * 1000 = real_of_int k * 1000 + b" by (rule add.commute)
  show ?thesis unfolding e floor_ms_shift by (rule add.commute)
qed

lemma paint_clock:
  "baseTimeMs (state_of (paint st d)) = baseTimeMs st"
  "startTimeMs (state_of (paint st d)) = startTimeMs st"
  "isRunning (state_of (paint st d)) = isRunning st"
  "lastRenderedSecond (state_of (paint st d)) = lastRenderedSecond st"
  by (simp_all add: paint_def Let_def split: option.split)

lemma paint_calls: "paintCalls (state_of (paint st d)) = paintCalls st @ [d]"
  by (simp add: paint_def Let_def split: option.split)

lemma and_then_state:
  "state_of (and_then (paint st d) (\<lambda>st'. Returned (requestAnimationFrame st'))) = 
     (if threw (paint st d) then state_of (paint st d) else requestAnimationFrame (state_of (paint st d)))"
  by (cases "paint st d") simp_all

lemma raf_clock:
  "baseTimeMs (requestAnimationFrame st) = baseTimeMs st"
  "startTimeMs (requestAnimationFrame st) = startTimeMs st"
  "isRunning (requestAnimationFrame st) = isRunning st"
  "lastRenderedSecond (requestAnimationFrame st) = lastRenderedSecond st"
  "paintCalls (requestAnimationFrame st) = paintCalls st"
  by (simp_all add: requestAnimationFrame_def Let_def)

lemma cancel_clock:
  "baseTimeMs (cancelAnimationFrame st i) = baseTimeMs st"
  "startTimeMs (cancelAnimationFrame st i) = startTimeMs st"
  "isRunning (cancelAnimationFrame st i) = isRunning st"
  "lastRenderedSecond (cancelAnimationFrame st i) = lastRenderedSecond st"
  "paintCalls (cancelAnimationFrame st i) = paintCalls st"
  by (simp_all add: cancelAnimationFrame_def)

lemma loop_clock:
  "baseTimeMs (state_of (loop st now)) = baseTimeMs st"
  "startTimeMs (state_of (loop st now)) = startTimeMs st"
  "isRunning (state_of (loop st now)) = isRunning st"
  by (simp_all add: loop_def Let_def and_then_state paint_clock raf_clock)

lemma loop_last:
  "isRunning st \<Longrightarrow> lastRenderedSecond (state_of (loop st now)) = \<lfloor>(baseTimeMs st + (now - startTimeMs st)) / 1000\<rfloor>"
  by (simp add: loop_def Let_def and_then_state paint_clock raf_clock)

lemma loop_paintCalls:
  "isRunning st \<Longrightarrow> paintCalls (state_of (loop st now)) = 
     (if \<lfloor>(baseTimeMs st + (now - startTimeMs st)) / 1000\<rfloor> \<noteq> lastRenderedSecond st 
      then paintCalls st @ [\<lfloor>(baseTimeMs st + (now - startTimeMs st)) / 1000\<rfloor>] else paintCalls st)"
  by (simp add: loop_def Let_def and_then_state paint_clock raf_clock paint_calls)

lemma start_running: 
  "\<not> isRunning st \<Longrightarrow> onmessage st now START = Returned (requestAnimationFrame (st\<lparr>isRunning := True, startTimeMs := now\<rparr>))"
  by simp

lemma start_noop: "isRunning st \<Longrightarrow> onmessage st now START = Returned st"
  by simp

lemma pause_noop: "\<not> isRunning st \<Longrightarrow> onmessage st now PAUSE = Returned st"
  by simp

lemma emitChange_clock:
  "baseDurationMs (emitChange s now) = baseDurationMs s"
  "s_startTimeMs (emitChange s now) = s_startTimeMs s"
  "s_isRunning (emitChange s now) = s_isRunning s"
  "worker (emitChange s now) = worker s"
  "posted (emitChange s now) = posted s"
  "listeners (emitChange s now) = listeners s"
  "consoleErrors (emitChange s now) = consoleErrors s"
  by (simp_all add: emitChange_def Let_def)

lemma postMessage_clock:
  "baseDurationMs (postMessage s ty) = baseDurationMs s"
  "s_startTimeMs (postMessage s ty) = s_startTimeMs s"
  "s_isRunning (postMessage s ty) = s_isRunning s"
  "worker (postMessage s ty) = worker s"
  "listeners (postMessage s ty) = listeners s"
  "snapshot (postMessage s ty) = snapshot s"
  "snapshotId (postMessage s ty) = snapshotId s"
  "notified (postMessage s ty) = notified s"
  "consoleErrors (postMessage s ty) = consoleErrors s"
  by (simp_all add: postMessage_def)

lemma start_store_clock:
  "\<not> s_isRunning s \<Longrightarrow> s_isRunning (start s now now2)"
  "\<not> s_isRunning s \<Longrightarrow> s_startTimeMs (start s now now2) = now"
  "baseDurationMs (start s now now2) = baseDurationMs s"
  by (simp_all add: start_def emitChange_clock postMessage_clock)

lemma pause_store_clock:
  "\<not> s_isRunning (pause s now)"
  "s_isRunning s \<Longrightarrow> baseDurationMs (pause s now) = baseDurationMs s + (now - s_startTimeMs s)"
  "s_startTimeMs (pause s now) = s_startTimeMs s"
  by (simp_all add: pause_def emitChange_clock postMessage_clock)

lemma setTime_store_clock:
  "s_isRunning (setTime s n now now2) = s_isRunning s"
  "baseDurationMs (setTime s n now now2) = real_of_int n * 1000"
  "s_startTimeMs (setTime s n now now2) = (if s_isRunning s then now else s_startTimeMs s)"
  by (simp_all add: setTime_def Let_def emitChange_clock)

lemma calculateState_total:
  "totalSeconds (calculateState s now) = max 0 \<lfloor>store_totalMs s now / 1000\<rfloor>"
  by (simp add: calculateState_def store_totalMs_def Let_def)

lemma tick_reports:
  "totalSeconds (snapshot (worker_onmessage s ''TICK'' now)) = totalSeconds (calculateState s now)"
  by (simp add: worker_onmessage_def emitChange_def Let_def)

lemma start_kernel_clock:
  "\<not> isRunning st \<Longrightarrow> isRunning (state_of (onmessage st now START))"
  "\<not> isRunning st \<Longrightarrow> startTimeMs (state_of (onmessage st now START)) = now"
  "baseTimeMs (state_of (onmessage st now START)) = baseTimeMs st"
  by (simp_all add: raf_clock)

lemma pause_kernel_clock:
  "\<not> isRunning (state_of (onmessage st now PAUSE))"
  "isRunning st \<Longrightarrow> baseTimeMs (state_of (onmessage st now PAUSE)) = baseTimeMs st + (now - startTimeMs st)"
  "startTimeMs (state_of (onmessage st now PAUSE)) = startTimeMs st"
  by (simp_all add: Let_def cancel_clock split: option.split)

lemma setTime_kernel_clock:
  "isRunning (state_of (onmessage st now (SET_TIME n))) = isRunning st"
  "baseTimeMs (state_of (onmessage st now (SET_TIME n))) = real_of_int n * 1000"
  "startTimeMs (state_of (onmessage st now (SET_TIME n))) = (if isRunning st then now else startTimeMs st)"
  "lastRenderedSecond (state_of (onmessage st now (SET_TIME n))) = n"
  by (simp_all add: Let_def paint_clock)

lemmas kernel_defs =
  initial_state_def requestAnimationFrame_def cancelAnimationFrame_def paint_def loop_def
  kernel_totalMs_def Let_def

lemmas store_defs =
  init_store_def mount_def subscribe_def postMessage_def calculateState_def emitChange_def
  worker_onmessage_def start_def pause_def setTime_def store_totalMs_def Let_def

text \<open>
  C3. START while running and PAUSE while stopped return the state unchanged, in the
  kernel's handler and in the store's actions; two consecutive STARTs leave the state
  the first one produced, and so do two consecutive PAUSEs.
\<close>

theorem start_pause_idempotent:
  "(isRunning st \<longrightarrow> onmessage st now START = Returned st)
   \<and> (\<not> isRunning st \<longrightarrow> onmessage st now PAUSE = Returned st)
   \<and> handle_all st [(t1, START), (t2, START)] = handle_all st [(t1, START)]
   \<and> handle_all st [(t1, PAUSE), (t2, PAUSE)] = handle_all st [(t1, PAUSE)]
   \<and> (s_isRunning s \<longrightarrow> start s now now2 = s)
   \<and> (\<not> s_isRunning s \<longrightarrow> pause s now = s)
   \<and> perform_all s [Start t1 r1, Start t2 r2] = perform_all s [Start t1 r1]
   \<and> perform_all s [Pause t1, Pause t2] = perform_all s [Pause t1]"
proof (intro conjI impI)
  show "onmessage st now START = Returned st" if "isRunning st"
    using that by (rule start_noop)
  show "onmessage st now PAUSE = Returned st" if "\<not> isRunning st"
    using that by (rule pause_noop)
  have "isRunning (state_of (onmessage st t1 START))"
  proof (cases "isRunning st")
    case True
    then show ?thesis by (simp only: start_noop state_of.simps)
  next
    case False
    then show ?thesis by (rule start_kernel_clock)
  qed
  then have "onmessage (state_of (onmessage st t1 START)) t2 START
             = Returned (state_of (onmessage st t1 START))"
    by (rule start_noop)
  then show "handle_all st [(t1, START), (t2, START)] = handle_all st [(t1, START)]"
    by (simp only: handle_all.simps state_of.simps)
  have "\<not> isRunning (state_of (onmessage st t1 PAUSE))"
    by (rule pause_kernel_clock)
  then have "onmessage (state_of (onmessage st t1 PAUSE)) t2 PAUSE
             = Returned (state_of (onmessage st t1 PAUSE))"
    by (rule pause_noop)
  then show "handle_all st [(t1, PAUSE), (t2, PAUSE)] = handle_all st [(t1, PAUSE)]"
    by (simp only: handle_all.simps state_of.simps)
  show "start s now now2 = s" if "s_isRunning s"
    using that by (simp add: start_def)
  show "pause s now = s" if "\<not> s_isRunning s"
    using that by (simp add: pause_def)
  have "s_isRunning (start s t1 r1)"
  proof (cases "s_isRunning s")
    case True
    then show ?thesis by (simp add: start_def)
  next
    case False
    then show ?thesis by (rule start_store_clock)
  qed
  then show "perform_all s [Start t1 r1, Start t2 r2] = perform_all s [Start t1 r1]"
    by (simp add: start_def)
  have "\<not> s_isRunning (pause s t1)"
    by (rule pause_store_clock)
  then show "perform_all s [Pause t1, Pause t2] = perform_all s [Pause t1]"
    by (simp add: pause_def)
qed

theorem start_pause_idempotent_witness:
  "isRunning (state_of (onmessage initial_state 100 START))
   \<and> onmessage (state_of (onmessage initial_state 100 START)) 200 START
       = Returned (state_of (onmessage initial_state 100 START))
   \<and> \<not> isRunning initial_state
   \<and> onmessage initial_state 300 PAUSE = Returned initial_state
   \<and> s_isRunning (start (init_store 0) 100 101)
   \<and> start (start (init_store 0) 100 101) 200 201 = start (init_store 0) 100 101
   \<and> \<not> s_isRunning (init_store 0)
   \<and> pause (init_store 0) 300 = init_store 0"
proof -
  have k1: "isRunning (state_of (onmessage initial_state 100 START))"
    by (simp add: kernel_defs)
  have k2: "\<not> isRunning initial_state"
    by (simp add: initial_state_def)
  have k3: "s_isRunning (start (init_store 0) 100 101)"
    by (simp add: store_defs)
  have k4: "\<not> s_isRunning (init_store 0)"
    by (simp add: init_store_def)
  show ?thesis
    using start_pause_idempotent [where st = "state_of (onmessage initial_state 100 START)"
        and now = 200 and s = "start (init_store 0) 100 101" and ?now2.0 = 201]
      start_pause_idempotent [where st = initial_state and now = 300 and s = "init_store 0"]
      k1 k2 k3 k4
    by (simp del: onmessage.simps)
qed

section \<open>The dirty check\<close>

lemma paint_frames_le: "length (frames (state_of (paint st d))) \<le> length (frames st) + 1"
  by (simp add: paint_def Let_def split: option.split)

lemma raf_frames: "frames (requestAnimationFrame st) = frames st"
  by (simp add: requestAnimationFrame_def Let_def)

lemma loop_second:
  "isRunning st \<Longrightarrow> lastRenderedSecond (state_of (loop st now)) = kernel_second st now"
  by (simp add: loop_last kernel_second_def kernel_totalMs_def)

lemma loop_fires:
  "isRunning st \<Longrightarrow> paintCalls (state_of (loop st now)) =
     (if kernel_second st now \<noteq> lastRenderedSecond st
      then paintCalls st @ [kernel_second st now] else paintCalls st)"
  by (simp add: loop_paintCalls kernel_second_def kernel_totalMs_def)

lemma loop_stopped: "\<not> isRunning st \<Longrightarrow> loop st now = Returned st"
  by (simp add: loop_def)

lemma loop_frames_same:
  "isRunning st \<Longrightarrow> kernel_second st now = lastRenderedSecond st \<Longrightarrow>
     frames (state_of (loop st now)) = frames st"
  by (simp add: loop_def Let_def kernel_second_def kernel_totalMs_def raf_frames)

lemma loop_frames_le: "length (frames (state_of (loop st now))) \<le> length (frames st) + 1"
  using paint_frames_le [of "st\<lparr>lastRenderedSecond := \<lfloor>(baseTimeMs st + (now - startTimeMs st)) / 1000\<rfloor>\<rparr>"
      "\<lfloor>(baseTimeMs st + (now - startTimeMs st)) / 1000\<rfloor>"]
  by (simp add: loop_def Let_def and_then_state raf_frames)

lemma kernel_second_loop: "kernel_second (state_of (loop st now)) t = kernel_second st t"
  by (simp add: kernel_second_def kernel_totalMs_def loop_clock)

lemma loop_all_quiet:
  "isRunning st \<Longrightarrow> \<forall>t\<in>set nows. kernel_second st t = k \<Longrightarrow> lastRenderedSecond st = k \<Longrightarrow>
     paintCalls (loop_all st nows) = paintCalls st \<and> frames (loop_all st nows) = frames st"
proof (induction nows arbitrary: st)
  case Nil
  then show ?case by simp
next
  case (Cons now nows)
  let ?st' = "state_of (loop st now)"
  have sec: "kernel_second st now = k" using Cons.prems by simp
  have r: "isRunning ?st'" using Cons.prems(1) by (simp add: loop_clock)
  have q: "\<forall>t\<in>set nows. kernel_second ?st' t = k"
    using Cons.prems(2) by (simp add: kernel_second_loop)
  have l: "lastRenderedSecond ?st' = k"
    using Cons.prems(1) sec by (simp add: loop_second)
  have p: "paintCalls ?st' = paintCalls st"
    using Cons.prems(1,3) sec by (simp add: loop_fires)
  have f: "frames ?st' = frames st"
    using Cons.prems(1,3) sec by (simp add: loop_frames_same)
  from Cons.IH [OF r q l] p f show ?case by simp
qed

lemma loop_all_stopped: "\<not> isRunning st \<Longrightarrow> loop_all st nows = st"
  by (induction nows) (simp_all add: loop_stopped)

lemma loop_all_fires_once:
  assumes "\<forall>t\<in>set nows. kernel_second st t = k"
  shows "paintCalls (loop_all st nows) =
           paintCalls st @ (if nows \<noteq> [] \<and> isRunning st \<and> k \<noteq> lastRenderedSecond st then [k] else [])"
    and "length (frames (loop_all st nows)) \<le> length (frames st) + 1"
proof -
  show "paintCalls (loop_all st nows) =
           paintCalls st @ (if nows \<noteq> [] \<and> isRunning st \<and> k \<noteq> lastRenderedSecond st then [k] else [])"
  proof (cases "isRunning st")
    case False
    then show ?thesis by (simp add: loop_all_stopped)
  next
    case True
    show ?thesis
    proof (cases nows)
      case Nil
      then show ?thesis by simp
    next
      case (Cons now rest)
      let ?st' = "state_of (loop st now)"
      have sec: "kernel_second st now = k" using assms Cons by simp
      have r: "isRunning ?st'" using True by (simp add: loop_clock)
      have q: "\<forall>t\<in>set rest. kernel_second ?st' t = k"
        using assms Cons by (simp add: kernel_second_loop)
      have l: "lastRenderedSecond ?st' = k" using True sec by (simp add: loop_second)
      have "paintCalls (loop_all ?st' rest) = paintCalls ?st'"
        using loop_all_quiet [OF r q l] by simp
      then show ?thesis using Cons True sec by (simp add: loop_fires)
    qed
  qed
  show "length (frames (loop_all st nows)) \<le> length (frames st) + 1"
  proof (cases "isRunning st")
    case False
    then show ?thesis by (simp add: loop_all_stopped)
  next
    case True
    show ?thesis
    proof (cases nows)
      case Nil
      then show ?thesis by simp
    next
      case (Cons now rest)
      let ?st' = "state_of (loop st now)"
      have sec: "kernel_second st now = k" using assms Cons by simp
      have r: "isRunning ?st'" using True by (simp add: loop_clock)
      have q: "\<forall>t\<in>set rest. kernel_second ?st' t = k"
        using assms Cons by (simp add: kernel_second_loop)
      have l: "lastRenderedSecond ?st' = k" using True sec by (simp add: loop_second)
      have "frames (loop_all ?st' rest) = frames ?st'"
        using loop_all_quiet [OF r q l] by simp
      then show ?thesis using Cons loop_frames_le [of st now] by simp
    qed
  qed
qed

lemma calculateState_emitChange: "calculateState (emitChange s now) t = calculateState s t"
  by (simp add: calculateState_def emitChange_clock)

lemma emitChange_fires:
  "snapshot (emitChange s now) =
     (if totalSeconds (calculateState s now) \<noteq> totalSeconds (snapshot s)
         \<or> snap_isRunning (calculateState s now) \<noteq> snap_isRunning (snapshot s)
      then calculateState s now else snapshot s)"
  "snapshotId (emitChange s now) =
     (if totalSeconds (calculateState s now) \<noteq> totalSeconds (snapshot s)
         \<or> snap_isRunning (calculateState s now) \<noteq> snap_isRunning (snapshot s)
      then snapshotId s + 1 else snapshotId s)"
  "notified (emitChange s now) =
     (if totalSeconds (calculateState s now) \<noteq> totalSeconds (snapshot s)
         \<or> snap_isRunning (calculateState s now) \<noteq> snap_isRunning (snapshot s)
      then notified s @ listeners s else notified s)"
  by (simp_all add: emitChange_def Let_def)

lemma calculateState_flag: "snap_isRunning (calculateState s now) = s_isRunning s"
  by (simp add: calculateState_def Let_def)

lemma tick_is_emit: "worker_onmessage s ''TICK'' now = emitChange s now"
  by (simp add: worker_onmessage_def)

lemma tick_all_quiet:
  "\<forall>t\<in>set nows. totalSeconds (calculateState s t) = k \<Longrightarrow>
   totalSeconds (snapshot s) = k \<Longrightarrow> snap_isRunning (snapshot s) = s_isRunning s \<Longrightarrow>
     tick_all s nows = s"
proof (induction nows)
  case Nil
  then show ?case by simp
next
  case (Cons now nows)
  have "emitChange s now = s"
    using Cons.prems by (simp add: emitChange_def Let_def calculateState_flag)
  with Cons show ?case by (simp add: tick_is_emit)
qed

lemma tick_all_fires_once:
  assumes "\<forall>t\<in>set nows. totalSeconds (calculateState s t) = k"
  shows "snapshotId (tick_all s nows) =
           (if nows \<noteq> [] \<and> (k \<noteq> totalSeconds (snapshot s) \<or> s_isRunning s \<noteq> snap_isRunning (snapshot s))
            then snapshotId s + 1 else snapshotId s)"
    and "notified (tick_all s nows) =
           notified s @ (if nows \<noteq> [] \<and> (k \<noteq> totalSeconds (snapshot s) \<or> s_isRunning s \<noteq> snap_isRunning (snapshot s))
            then listeners s else [])"
proof -
  have both: "snapshotId (tick_all s nows) =
           (if nows \<noteq> [] \<and> (k \<noteq> totalSeconds (snapshot s) \<or> s_isRunning s \<noteq> snap_isRunning (snapshot s))
            then snapshotId s + 1 else snapshotId s)
      \<and> notified (tick_all s nows) =
           notified s @ (if nows \<noteq> [] \<and> (k \<noteq> totalSeconds (snapshot s) \<or> s_isRunning s \<noteq> snap_isRunning (snapshot s))
            then listeners s else [])"
  proof (cases nows)
    case Nil
    then show ?thesis by simp
  next
    case (Cons now rest)
    let ?s' = "emitChange s now"
    have sec: "totalSeconds (calculateState s now) = k" using assms Cons by simp
    have q: "\<forall>t\<in>set rest. totalSeconds (calculateState ?s' t) = k"
      using assms Cons by (simp add: calculateState_emitChange)
    have l: "totalSeconds (snapshot ?s') = k"
      using sec by (simp add: emitChange_fires)
    have fl: "snap_isRunning (snapshot ?s') = s_isRunning ?s'"
      by (auto simp add: emitChange_fires calculateState_flag emitChange_clock)
    have rest: "tick_all ?s' rest = ?s'"
      using q l fl by (rule tick_all_quiet)
    show ?thesis
      using Cons sec rest by (auto simp add: tick_is_emit emitChange_fires calculateState_flag)
  qed
  from both show "snapshotId (tick_all s nows) =
           (if nows \<noteq> [] \<and> (k \<noteq> totalSeconds (snapshot s) \<or> s_isRunning s \<noteq> snap_isRunning (snapshot s))
            then snapshotId s + 1 else snapshotId s)" by blast
  from both show "notified (tick_all s nows) =
           notified s @ (if nows \<noteq> [] \<and> (k \<noteq> totalSeconds (snapshot s) \<or> s_isRunning s \<noteq> snap_isRunning (snapshot s))
            then listeners s else [])" by blast
qed

text \<open>
  C4. Dirty-check suppression. Over any run of render-loop invocations whose computed
  whole second is the same value \<open>k\<close>, \<open>paint\<close> is called at most once (exactly once when
  the run is non-empty, the clock is running and \<open>k\<close> differs from the last rendered
  second) and at most one frame is drawn; one invocation calls \<open>paint\<close> exactly when the
  computed second differs from \<open>lastRenderedSecond\<close>, and leaves that field at the computed
  second. Over any run of TICKs whose recomputed \<open>totalSeconds\<close> is the same, the store
  replaces its snapshot and notifies its listeners at most once; one TICK does so exactly
  when the recomputed \<open>(totalSeconds, isRunning)\<close> differs from the cached snapshot, and
  then caches the recomputed one.
\<close>

theorem dirty_check_suppression:
  "((\<forall>t\<in>set nows. kernel_second st t = k) \<longrightarrow>
      paintCalls (loop_all st nows) =
        paintCalls st @
        (if nows \<noteq> [] \<and> isRunning st \<and> k \<noteq> lastRenderedSecond st then [k] else [])
      \<and> length (paintCalls (loop_all st nows)) \<le> length (paintCalls st) + 1
      \<and> length (frames (loop_all st nows)) \<le> length (frames st) + 1)
   \<and> (isRunning st \<longrightarrow>
      paintCalls (state_of (loop st now)) =
        (if kernel_second st now \<noteq> lastRenderedSecond st
         then paintCalls st @ [kernel_second st now] else paintCalls st)
      \<and> lastRenderedSecond (state_of (loop st now)) = kernel_second st now)
   \<and> ((\<forall>t\<in>set nows. totalSeconds (calculateState s t) = k) \<longrightarrow>
      snapshotId (tick_all s nows) \<le> snapshotId s + 1
      \<and> snapshotId (tick_all s nows) =
          (if nows \<noteq> [] \<and>
              (k \<noteq> totalSeconds (snapshot s) \<or> s_isRunning s \<noteq> snap_isRunning (snapshot s))
           then snapshotId s + 1 else snapshotId s)
      \<and> notified (tick_all s nows) =
          notified s @
          (if nows \<noteq> [] \<and>
              (k \<noteq> totalSeconds (snapshot s) \<or> s_isRunning s \<noteq> snap_isRunning (snapshot s))
           then listeners s else []))
   \<and> (let fires = (totalSeconds (calculateState s now) \<noteq> totalSeconds (snapshot s)
                     \<or> snap_isRunning (calculateState s now) \<noteq> snap_isRunning (snapshot s));
            s' = worker_onmessage s ''TICK'' now
        in snapshot s' = (if fires then calculateState s now else snapshot s)
           \<and> snapshotId s' = (if fires then snapshotId s + 1 else snapshotId s)
           \<and> notified s' = (if fires then notified s @ listeners s else notified s))"
proof (intro conjI impI)
  assume same: "\<forall>t\<in>set nows. kernel_second st t = k"
  show p: "paintCalls (loop_all st nows) =
        paintCalls st @
        (if nows \<noteq> [] \<and> isRunning st \<and> k \<noteq> lastRenderedSecond st then [k] else [])"
    using same by (rule loop_all_fires_once)
  show "length (paintCalls (loop_all st nows)) \<le> length (paintCalls st) + 1"
    unfolding p by simp
  show "length (frames (loop_all st nows)) \<le> length (frames st) + 1"
    using same by (rule loop_all_fires_once)
next
  assume run: "isRunning st"
  show "paintCalls (state_of (loop st now)) =
        (if kernel_second st now \<noteq> lastRenderedSecond st
         then paintCalls st @ [kernel_second st now] else paintCalls st)"
    using run by (rule loop_fires)
  show "lastRenderedSecond (state_of (loop st now)) = kernel_second st now"
    using run by (rule loop_second)
next
  assume same: "\<forall>t\<in>set nows. totalSeconds (calculateState s t) = k"
  show i: "snapshotId (tick_all s nows) =
          (if nows \<noteq> [] \<and>
              (k \<noteq> totalSeconds (snapshot s) \<or> s_isRunning s \<noteq> snap_isRunning (snapshot s))
           then snapshotId s + 1 else snapshotId s)"
    using same by (rule tick_all_fires_once)
  show "snapshotId (tick_all s nows) \<le> snapshotId s + 1"
    unfolding i by simp
  show "notified (tick_all s nows) =
          notified s @
          (if nows \<noteq> [] \<and>
              (k \<noteq> totalSeconds (snapshot s) \<or> s_isRunning s \<noteq> snap_isRunning (snapshot s))
           then listeners s else [])"
    using same by (rule tick_all_fires_once)
next
  show "let fires = (totalSeconds (calculateState s now) \<noteq> totalSeconds (snapshot s)
                     \<or> snap_isRunning (calculateState s now) \<noteq> snap_isRunning (snapshot s));
            s' = worker_onmessage s ''TICK'' now
        in snapshot s' = (if fires then calculateState s now else snapshot s)
           \<and> snapshotId s' = (if fires then snapshotId s + 1 else snapshotId s)
           \<and> notified s' = (if fires then notified s @ listeners s else notified s)"
    unfolding Let_def tick_is_emit by (simp add: emitChange_fires)
qed

theorem dirty_check_suppression_witness:
  "list_all (\<lambda>t. kernel_second (state_of (onmessage initial_state 0 START)) t = 0)
     [100, 200, 300]
   \<and> paintCalls (loop_all (state_of (onmessage initial_state 0 START)) [100, 200, 300]) = [0]
   \<and> isRunning (state_of (onmessage initial_state 0 START))
   \<and> list_all
        (\<lambda>t. totalSeconds
               (calculateState (start (subscribe (mount (Inr ()) (init_store 0)) 1) 0 0) t) = 1)
        [1100, 1200, 1300]
   \<and> notified (tick_all (start (subscribe (mount (Inr ()) (init_store 0)) 1) 0 0)
        [1100, 1200, 1300]) = [1, 1]
   \<and> snapshotId (tick_all (start (subscribe (mount (Inr ()) (init_store 0)) 1) 0 0)
        [1100, 1200, 1300]) = 2"
proof -
  let ?st = "state_of (onmessage initial_state 0 START)"
  let ?s = "start (subscribe (mount (Inr ()) (init_store 0)) 1) 0 0"
  have k1: "list_all (\<lambda>t. kernel_second ?st t = 0) [100, 200, 300]"
    by (simp add: kernel_second_def kernel_defs)
  have k2: "isRunning ?st" "paintCalls ?st = []" "lastRenderedSecond ?st = - 1"
    by (simp_all add: kernel_defs)
  have k3: "list_all (\<lambda>t. totalSeconds (calculateState ?s t) = 1) [1100, 1200, 1300]"
    by (simp add: store_defs)
  have k4: "notified ?s = [1]" "snapshotId ?s = 1" "listeners ?s = [1]"
    "totalSeconds (snapshot ?s) = 0"
    by (simp_all add: store_defs)
  from k1 have h1: "\<forall>t\<in>set [100, 200, 300]. kernel_second ?st t = 0"
    by (simp del: onmessage.simps)
  from k3 have h3: "\<forall>t\<in>set [1100, 1200, 1300]. totalSeconds (calculateState ?s t) = 1"
    by simp
  show ?thesis
    using dirty_check_suppression [where st = ?st and nows = "[100, 200, 300]" and k = 0
        and s = "init_store 0"]
      dirty_check_suppression [where s = ?s and nows = "[1100, 1200, 1300]" and k = 1
        and st = initial_state]
      h1 h3 k1 k2 k3 k4
    by (simp del: onmessage.simps)
qed

section \<open>Store actions and the dirty check\<close>

lemma emitChange_flag_cached: "flag_cached (emitChange s now)"
  by (auto simp add: flag_cached_def emitChange_fires calculateState_flag emitChange_clock)

lemma perform_flag_cached: "flag_cached s \<Longrightarrow> flag_cached (perform s a)"
  by (cases a) (simp_all add: start_def pause_def setTime_def Let_def emitChange_flag_cached)

lemma start_fires:
  assumes "\<not> s_isRunning s" "flag_cached s"
  shows "snapshot (start s now now2) = calculateState (start s now now2) now2"
    and "snapshotId (start s now now2) = snapshotId s + 1"
    and "notified (start s now now2) = notified s @ listeners s"
  using assms
  by (simp_all add: start_def flag_cached_def emitChange_fires calculateState_flag
        postMessage_clock calculateState_emitChange)

lemma pause_fires:
  assumes "s_isRunning s" "flag_cached s"
  shows "snapshot (pause s now) = calculateState (pause s now) now"
    and "snapshotId (pause s now) = snapshotId s + 1"
    and "notified (pause s now) = notified s @ listeners s"
  using assms
  by (simp_all add: pause_def flag_cached_def emitChange_fires calculateState_flag
        postMessage_clock calculateState_emitChange)

lemma setTime_emit:
  "snapshot (setTime s n now now2) =
     (if totalSeconds (calculateState (setTime s n now now2) now2) \<noteq> totalSeconds (snapshot s)
         \<or> s_isRunning s \<noteq> snap_isRunning (snapshot s)
      then calculateState (setTime s n now now2) now2 else snapshot s)"
  "snapshotId (setTime s n now now2) =
     (if totalSeconds (calculateState (setTime s n now now2) now2) \<noteq> totalSeconds (snapshot s)
         \<or> s_isRunning s \<noteq> snap_isRunning (snapshot s)
      then snapshotId s + 1 else snapshotId s)"
  "notified (setTime s n now now2) =
     (if totalSeconds (calculateState (setTime s n now now2) now2) \<noteq> totalSeconds (snapshot s)
         \<or> s_isRunning s \<noteq> snap_isRunning (snapshot s)
      then notified s @ listeners s else notified s)"
  by (simp_all add: setTime_def Let_def emitChange_fires calculateState_flag
        calculateState_emitChange)

lemma setTime_seconds:
  "totalSeconds (calculateState (setTime s n now now2) now2) =
     max 0 (n + (if s_isRunning s then \<lfloor>(now2 - now) / 1000\<rfloor> else 0))"
proof (cases "s_isRunning s")
  case True
  then have "store_totalMs (setTime s n now now2) now2 = real_of_int n * 1000 + (now2 - now)"
    by (simp add: store_totalMs_def setTime_store_clock)
  then show ?thesis
    using True unfolding calculateState_total by (simp only: floor_ms_shift if_True)
next
  case False
  then show ?thesis
    by (simp add: calculateState_total store_totalMs_def setTime_store_clock)
qed

text \<open>
  C6, as the code has it. The actions call \<open>emitChange\<close> at once, and \<open>emitChange\<close> keeps
  its dirty check. \<open>start\<close> on a stopped store and \<open>pause\<close> on a running one always
  replace the snapshot and call every listener, because the running flag changes.
  \<open>setTime(n)\<close> replaces the snapshot and calls the listeners exactly when the recomputed
  \<open>(totalSeconds, isRunning)\<close> differs from the cached snapshot. The recomputed
  \<open>totalSeconds\<close> is \<open>max(0, n)\<close> on a stopped store and \<open>max(0, n + k)\<close> on a running
  one, \<open>k\<close> being the whole seconds between the two clock readings of \<open>setTime\<close>: when the
  cached snapshot shows that value nothing is replaced and no listener is called, and
  when it shows another value the snapshot is replaced and every listener is called.
  \<open>start\<close> while running and \<open>pause\<close> while stopped return before any recompute. Every
  action leaves the cached flag equal to the store's flag, as it is in a new store.
\<close>

theorem actions_pass_dirty_check:
  "(\<not> s_isRunning s \<and> flag_cached s \<longrightarrow>
      snapshot (start s now now2) = calculateState (start s now now2) now2
      \<and> snapshotId (start s now now2) = snapshotId s + 1
      \<and> notified (start s now now2) = notified s @ listeners s)
   \<and> (s_isRunning s \<and> flag_cached s \<longrightarrow>
      snapshot (pause s now) = calculateState (pause s now) now
      \<and> snapshotId (pause s now) = snapshotId s + 1
      \<and> notified (pause s now) = notified s @ listeners s)
   \<and> (let s' = setTime s n now now2;
            fires = (totalSeconds (calculateState s' now2) \<noteq> totalSeconds (snapshot s)
                     \<or> s_isRunning s \<noteq> snap_isRunning (snapshot s))
        in snapshot s' = (if fires then calculateState s' now2 else snapshot s)
           \<and> snapshotId s' = (if fires then snapshotId s + 1 else snapshotId s)
           \<and> notified s' = (if fires then notified s @ listeners s else notified s))
   \<and> totalSeconds (calculateState (setTime s n now now2) now2) =
       max 0 (n + (if s_isRunning s then \<lfloor>(now2 - now) / 1000\<rfloor> else 0))
   \<and> (flag_cached s
        \<and> totalSeconds (snapshot s) =
            max 0 (n + (if s_isRunning s then \<lfloor>(now2 - now) / 1000\<rfloor> else 0)) \<longrightarrow>
      snapshot (setTime s n now now2) = snapshot s
      \<and> snapshotId (setTime s n now now2) = snapshotId s
      \<and> notified (setTime s n now now2) = notified s)
   \<and> (flag_cached s
        \<and> totalSeconds (snapshot s) \<noteq>
            max 0 (n + (if s_isRunning s then \<lfloor>(now2 - now) / 1000\<rfloor> else 0)) \<longrightarrow>
      snapshot (setTime s n now now2) = calculateState (setTime s n now now2) now2
      \<and> snapshotId (setTime s n now now2) = snapshotId s + 1
      \<and> notified (setTime s n now now2) = notified s @ listeners s)
   \<and> (s_isRunning s \<longrightarrow> start s now now2 = s)
   \<and> (\<not> s_isRunning s \<longrightarrow> pause s now = s)
   \<and> (flag_cached s \<longrightarrow> flag_cached (perform s a))
   \<and> flag_cached (init_store i)"
proof (intro conjI impI)
  assume a: "\<not> s_isRunning s \<and> flag_cached s"
  then have a1: "\<not> s_isRunning s" and a2: "flag_cached s" by blast+
  show "snapshot (start s now now2) = calculateState (start s now now2) now2"
    using a1 a2 by (rule start_fires)
  show "snapshotId (start s now now2) = snapshotId s + 1"
    using a1 a2 by (rule start_fires)
  show "notified (start s now now2) = notified s @ listeners s"
    using a1 a2 by (rule start_fires)
next
  assume a: "s_isRunning s \<and> flag_cached s"
  then have a1: "s_isRunning s" and a2: "flag_cached s" by blast+
  show "snapshot (pause s now) = calculateState (pause s now) now"
    using a1 a2 by (rule pause_fires)
  show "snapshotId (pause s now) = snapshotId s + 1"
    using a1 a2 by (rule pause_fires)
  show "notified (pause s now) = notified s @ listeners s"
    using a1 a2 by (rule pause_fires)
next
  show "let s' = setTime s n now now2;
            fires = (totalSeconds (calculateState s' now2) \<noteq> totalSeconds (snapshot s)
                     \<or> s_isRunning s \<noteq> snap_isRunning (snapshot s))
        in snapshot s' = (if fires then calculateState s' now2 else snapshot s)
           \<and> snapshotId s' = (if fires then snapshotId s + 1 else snapshotId s)
           \<and> notified s' = (if fires then notified s @ listeners s else notified s)"
    unfolding Let_def using setTime_emit [of s n now now2] by blast
next
  show "totalSeconds (calculateState (setTime s n now now2) now2) =
       max 0 (n + (if s_isRunning s then \<lfloor>(now2 - now) / 1000\<rfloor> else 0))"
    by (rule setTime_seconds)
next
  assume a: "flag_cached s
        \<and> totalSeconds (snapshot s) =
            max 0 (n + (if s_isRunning s then \<lfloor>(now2 - now) / 1000\<rfloor> else 0))"
  then have calm: "\<not> (totalSeconds (calculateState (setTime s n now now2) now2)
                        \<noteq> totalSeconds (snapshot s)
                      \<or> s_isRunning s \<noteq> snap_isRunning (snapshot s))"
    unfolding setTime_seconds by (simp add: flag_cached_def)
  show "snapshot (setTime s n now now2) = snapshot s"
    using calm setTime_emit(1) [of s n now now2] by presburger
  show "snapshotId (setTime s n now now2) = snapshotId s"
    using calm setTime_emit(2) [of s n now now2] by presburger
  show "notified (setTime s n now now2) = notified s"
    using calm setTime_emit(3) [of s n now now2] by presburger
next
  assume a: "flag_cached s
        \<and> totalSeconds (snapshot s) \<noteq>
            max 0 (n + (if s_isRunning s then \<lfloor>(now2 - now) / 1000\<rfloor> else 0))"
  then have stir: "totalSeconds (calculateState (setTime s n now now2) now2)
                        \<noteq> totalSeconds (snapshot s)
                      \<or> s_isRunning s \<noteq> snap_isRunning (snapshot s)"
    unfolding setTime_seconds by (simp add: flag_cached_def)
  show "snapshot (setTime s n now now2) = calculateState (setTime s n now now2) now2"
    using stir setTime_emit(1) [of s n now now2] by presburger
  show "snapshotId (setTime s n now now2) = snapshotId s + 1"
    using stir setTime_emit(2) [of s n now now2] by presburger
  show "notified (setTime s n now now2) = notified s @ listeners s"
    using stir setTime_emit(3) [of s n now now2] by presburger
next
  show "start s now now2 = s" if "s_isRunning s"
    using that by (simp add: start_def)
  show "pause s now = s" if "\<not> s_isRunning s"
    using that by (simp add: pause_def)
  show "flag_cached (perform s a)" if "flag_cached s"
    using that by (rule perform_flag_cached)
  show "flag_cached (init_store i)"
    by (simp add: flag_cached_def init_store_def)
qed


theorem actions_pass_dirty_check_witness:
  "\<not> s_isRunning (subscribe (mount (Inr ()) (init_store 5)) 1)
   \<and> flag_cached (subscribe (mount (Inr ()) (init_store 5)) 1)
   \<and> notified (start (subscribe (mount (Inr ()) (init_store 5)) 1) 100 101) = [1]
   \<and> snapshotId (start (subscribe (mount (Inr ()) (init_store 5)) 1) 100 101) = 1
   \<and> totalSeconds (snapshot (subscribe (mount (Inr ()) (init_store 5)) 1)) = max 0 5
   \<and> notified (setTime (subscribe (mount (Inr ()) (init_store 5)) 1) 5 100 101) = []
   \<and> s_isRunning (start (subscribe (mount (Inr ()) (init_store 5)) 1) 100 101)
   \<and> flag_cached (start (subscribe (mount (Inr ()) (init_store 5)) 1) 100 101)
   \<and> notified (pause (start (subscribe (mount (Inr ()) (init_store 5)) 1) 100 101) 200)
       = [1, 1]
   \<and> flag_cached (subscribe (mount (Inr ()) (init_store (- 10))) 1)
   \<and> totalSeconds (snapshot (subscribe (mount (Inr ()) (init_store (- 10))) 1)) = - 10
   \<and> notified (setTime (subscribe (mount (Inr ()) (init_store (- 10))) 1) (- 10) 100 101)
       = [1]
   \<and> totalSeconds
        (snapshot (setTime (subscribe (mount (Inr ()) (init_store (- 10))) 1) (- 10) 100 101))
       = 0"
proof -
  let ?s = "subscribe (mount (Inr ()) (init_store 5)) 1"
  let ?m = "subscribe (mount (Inr ()) (init_store (- 10))) 1"
  have k: "\<not> s_isRunning ?s" "flag_cached ?s" "totalSeconds (snapshot ?s) = max 0 5"
    "notified ?s = []" "listeners ?s = [1]" "snapshotId ?s = 0"
    by (simp_all add: store_defs flag_cached_def)
  have r: "s_isRunning (start ?s 100 101)" "flag_cached (start ?s 100 101)"
    "listeners (start ?s 100 101) = [1]"
    by (simp_all add: store_defs flag_cached_def)
  have m: "\<not> s_isRunning ?m" "flag_cached ?m" "totalSeconds (snapshot ?m) = - 10"
    "notified ?m = []" "listeners ?m = [1]"
    by (simp_all add: store_defs flag_cached_def)
  note A = actions_pass_dirty_check [where s = ?s and now = 100 and ?now2.0 = 101 and n = 5]
  note B = actions_pass_dirty_check [where s = "start ?s 100 101" and now = 200]
  note C = actions_pass_dirty_check [where s = ?m and now = 100 and ?now2.0 = 101
      and n = "- 10"]
  from A k have a: "notified (start ?s 100 101) = [1]" "snapshotId (start ?s 100 101) = 1"
    "notified (setTime ?s 5 100 101) = []"
    by simp_all
  from B r a have b: "notified (pause (start ?s 100 101) 200) = [1, 1]"
    by simp
  from C m have c: "notified (setTime ?m (- 10) 100 101) = [1]"
    "totalSeconds (snapshot (setTime ?m (- 10) 100 101)) = 0"
    by simp_all
  from k r m a b c show ?thesis by blast
qed

text \<open>
  Setting the time to the second already displayed, with the flag unchanged, replaces no
  snapshot and calls no listener.
\<close>

theorem setTime_same_second_is_silent:
  "listeners (subscribe (mount (Inr ()) (init_store 5)) 1) = [1]
   \<and> totalSeconds (snapshot (subscribe (mount (Inr ()) (init_store 5)) 1)) = 5
   \<and> snapshotId (setTime (subscribe (mount (Inr ()) (init_store 5)) 1) 5 100 101)
       = snapshotId (subscribe (mount (Inr ()) (init_store 5)) 1)
   \<and> notified (setTime (subscribe (mount (Inr ()) (init_store 5)) 1) 5 100 101) = []"
  by (simp add: store_defs)

section \<open>Negative totals\<close>

lemma timeText_minus_ten: "timeText (- 10) = ''-00:00:10''"
  by (simp add: timeText_def DIGITS_at_def DIGITS_nth digit_char_def)

lemma timeText_negative: "d < 0 \<Longrightarrow> timeText d = CHR ''-'' # timeText (- d)"
  by (simp add: timeText_def Let_def)

lemma formatTime_zero: "formatTime 0 = Str ''00:00:00''"
  by (simp add: formatTime_nonneg hours_field_def two_digits_def digit_char_def)

lemma floor_minus_ten: "0 \<le> e \<Longrightarrow> e < 1000 \<Longrightarrow> \<lfloor>(real_of_int (- 10) * 1000 + e) / 1000\<rfloor> = - 10"
  unfolding floor_ms_shift by (simp add: floor_eq_iff)

lemma paint_ready:
  "ctx st \<Longrightarrow> width st \<noteq> 0 \<Longrightarrow> height st \<noteq> 0 \<Longrightarrow> config st = Some cfg \<Longrightarrow>
     paint st d = Returned (st\<lparr>paintCalls := paintCalls st @ [d],
        frames := frames st @ [\<lparr>drawn = timeText d, dotShown = (showDot cfg \<and> \<bar>d\<bar> mod 2 = 0)\<rparr>]\<rparr>)"
  by (simp add: paint_def Let_def)

lemma adjust_frames:
  assumes "ctx st" "width st \<noteq> 0" "height st \<noteq> 0" "config st = Some cfg"
  shows "frames (state_of (onmessage st now (ADJUST_TIME delta))) =
     frames st @ [\<lparr>drawn = timeText (kernel_second (st\<lparr>baseTimeMs := baseTimeMs st + real_of_int delta * 1000\<rparr>) now),
                   dotShown = (showDot cfg \<and> \<bar>kernel_second (st\<lparr>baseTimeMs := baseTimeMs st + real_of_int delta * 1000\<rparr>) now\<bar> mod 2 = 0)\<rparr>]"
  using assms by (simp add: Let_def paint_ready kernel_second_def kernel_totalMs_def)

text \<open>
  C5. Negative time. On a kernel whose surface is ready and whose base is zero, START
  followed by ADJUST_TIME(-10) within the first second paints \<open>-00:00:10\<close>: a negative
  display second keeps its sign and is composed from its absolute value behind a minus
  sign. The store reports \<open>max(0, floor(totalMs / 1000))\<close> and formats that, so a negative
  total is reported as 0 and displayed as \<open>00:00:00\<close>; in particular the snapshot
  that \<open>start\<close> leaves on a store whose total is negative shows \<open>00:00:00\<close>.
\<close>

theorem negative_time_divergence:
  "(ctx st \<and> width st \<noteq> 0 \<and> height st \<noteq> 0 \<and> config st = Some cfg
      \<and> \<not> isRunning st \<and> baseTimeMs st = 0 \<and> 0 \<le> e \<and> e < 1000 \<longrightarrow>
      frames (handle_all st [(t, START), (t + e, ADJUST_TIME (- 10))]) =
        frames st @ [\<lparr>drawn = ''-00:00:10'', dotShown = showDot cfg\<rparr>])
   \<and> (d < 0 \<longrightarrow> timeText d = CHR ''-'' # timeText (- d))
   \<and> totalSeconds (calculateState s now) = max 0 \<lfloor>store_totalMs s now / 1000\<rfloor>
   \<and> displayTime (calculateState s now) = formatTime (totalSeconds (calculateState s now))
   \<and> (store_totalMs s now < 0 \<longrightarrow>
        totalSeconds (calculateState s now) = 0
        \<and> displayTime (calculateState s now) = Str ''00:00:00'')
   \<and> (\<not> s_isRunning s \<and> flag_cached s \<and> store_totalMs (start s now now2) now2 < 0 \<longrightarrow>
        displayTime (getSnapshot (start s now now2)) = Str ''00:00:00'')"
proof (intro conjI impI)
  assume a: "ctx st \<and> width st \<noteq> 0 \<and> height st \<noteq> 0 \<and> config st = Some cfg
      \<and> \<not> isRunning st \<and> baseTimeMs st = 0 \<and> 0 \<le> e \<and> e < 1000"
  define st1 where "st1 = state_of (onmessage st t START)"
  have st1: "st1 = requestAnimationFrame (st\<lparr>isRunning := True, startTimeMs := t\<rparr>)"
  proof -
    from a have "\<not> isRunning st" by blast
    then have "onmessage st t START =
        Returned (requestAnimationFrame (st\<lparr>isRunning := True, startTimeMs := t\<rparr>))"
      by (rule start_running)
    then show ?thesis unfolding st1_def by (simp only: state_of.simps)
  qed
  have ready: "ctx st1" "width st1 \<noteq> 0" "height st1 \<noteq> 0" "config st1 = Some cfg"
    and fr: "frames st1 = frames st"
    using a unfolding st1 by (simp_all add: requestAnimationFrame_def Let_def)
  have clock: "isRunning st1" "startTimeMs st1 = t" "baseTimeMs st1 = 0"
    using a unfolding st1 by (simp_all add: raf_clock)
  have "kernel_second (st1\<lparr>baseTimeMs := baseTimeMs st1 + real_of_int (- 10) * 1000\<rparr>) (t + e)
          = \<lfloor>(real_of_int (- 10) * 1000 + e) / 1000\<rfloor>"
    using clock by (simp add: kernel_second_def kernel_totalMs_def)
  also have "\<dots> = - 10"
  proof -
    from a have "0 \<le> e" "e < 1000" by blast+
    then show ?thesis by (rule floor_minus_ten)
  qed
  finally have sec: "kernel_second (st1\<lparr>baseTimeMs := baseTimeMs st1 + real_of_int (- 10) * 1000\<rparr>) (t + e) = - 10" .
  have "frames (state_of (onmessage st1 (t + e) (ADJUST_TIME (- 10)))) =
          frames st1 @ [\<lparr>drawn = ''-00:00:10'', dotShown = showDot cfg\<rparr>]"
    unfolding adjust_frames [OF ready] sec timeText_minus_ten by simp
  then show "frames (handle_all st [(t, START), (t + e, ADJUST_TIME (- 10))]) =
        frames st @ [\<lparr>drawn = ''-00:00:10'', dotShown = showDot cfg\<rparr>]"
    unfolding fr by (simp only: handle_all.simps st1_def)
next
  assume "d < 0"
  then show "timeText d = CHR ''-'' # timeText (- d)" by (rule timeText_negative)
next
  show "totalSeconds (calculateState s now) = max 0 \<lfloor>store_totalMs s now / 1000\<rfloor>"
    by (rule calculateState_total)
  show "displayTime (calculateState s now) = formatTime (totalSeconds (calculateState s now))"
    by (simp add: calculateState_def Let_def)
next
  assume neg: "store_totalMs s now < 0"
  then have "\<lfloor>store_totalMs s now / 1000\<rfloor> < 0"
    by (simp add: floor_less_iff divide_neg_pos)
  then show z: "totalSeconds (calculateState s now) = 0"
    unfolding calculateState_total by simp
  have "displayTime (calculateState s now) = formatTime (totalSeconds (calculateState s now))"
    by (simp add: calculateState_def Let_def)
  then show "displayTime (calculateState s now) = Str ''00:00:00''"
    unfolding z formatTime_zero .
next
  assume a: "\<not> s_isRunning s \<and> flag_cached s \<and> store_totalMs (start s now now2) now2 < 0"
  then have a1: "\<not> s_isRunning s" and a2: "flag_cached s"
    and neg: "store_totalMs (start s now now2) now2 < 0"
    by blast+
  have snap: "snapshot (start s now now2) = calculateState (start s now now2) now2"
    using a1 a2 by (rule start_fires)
  from neg have "\<lfloor>store_totalMs (start s now now2) now2 / 1000\<rfloor> < 0"
    by (simp add: floor_less_iff divide_neg_pos)
  then have z: "totalSeconds (calculateState (start s now now2) now2) = 0"
    unfolding calculateState_total by simp
  have "displayTime (calculateState (start s now now2) now2)
          = formatTime (totalSeconds (calculateState (start s now now2) now2))"
    by (simp add: calculateState_def Let_def)
  then show "displayTime (getSnapshot (start s now now2)) = Str ''00:00:00''"
    unfolding getSnapshot_def snap z formatTime_zero .
qed


theorem negative_time_divergence_witness:
  "map drawn (frames (handle_all initial_state
       [(0, INIT (300, 150) True default_config 0), (0, RESIZE 800 200 2),
        (100, START), (100, ADJUST_TIME (- 10))]))
     = [''00:00:00'', ''-00:00:10'']
   \<and> timeText (- 10) = CHR ''-'' # timeText 10
   \<and> store_totalMs (perform_all (init_store 0) [Start 100 101, SetTime (- 10) 100 101]) 100 < 0
   \<and> displayTime
        (calculateState (perform_all (init_store 0) [Start 100 101, SetTime (- 10) 100 101]) 100)
       = Str ''00:00:00''
   \<and> store_totalMs (start (init_store (- 10)) 100 100) 100 < 0
   \<and> displayTime (getSnapshot (start (init_store (- 10)) 100 100)) = Str ''00:00:00''"
proof -
  let ?st = "handle_all initial_state
       [(0, INIT (300, 150) True default_config 0), (0, RESIZE 800 200 2)]"
  let ?s = "perform_all (init_store 0) [Start 100 101, SetTime (- 10) 100 101]"
  have r: "ctx ?st \<and> width ?st \<noteq> 0 \<and> height ?st \<noteq> 0 \<and> config ?st = Some default_config
      \<and> \<not> isRunning ?st \<and> baseTimeMs ?st = 0 \<and> (0::real) \<le> 0 \<and> (0::real) < 1000"
    by (simp add: kernel_defs)
  have f: "map drawn (frames ?st) = [''00:00:00'']"
    by (simp add: kernel_defs timeText_def DIGITS_at_def DIGITS_nth digit_char_def)
  have split: "handle_all initial_state
       [(0, INIT (300, 150) True default_config 0), (0, RESIZE 800 200 2),
        (100, START), (100, ADJUST_TIME (- 10))]
     = handle_all ?st [(100, START), (100 + 0, ADJUST_TIME (- 10))]"
    by (simp only: handle_all.simps add_0_right)
  have neg: "store_totalMs ?s 100 < 0"
    by (simp add: store_defs)
  have ten: "(- 10::int) < 0"
    by simp
  have neg2: "\<not> s_isRunning (init_store (- 10)) \<and> flag_cached (init_store (- 10))
      \<and> store_totalMs (start (init_store (- 10)) 100 100) 100 < 0"
    by (simp add: store_defs flag_cached_def)
  note T = negative_time_divergence [where st = ?st and cfg = default_config and e = 0
      and t = 100 and d = "- 10" and s = ?s and now = 100]
  note T2 = negative_time_divergence [where s = "init_store (- 10)" and now = 100
      and ?now2.0 = 100]
  from T2 neg2 have z2: "displayTime (getSnapshot (start (init_store (- 10)) 100 100))
      = Str ''00:00:00''"
    by blast
  from T r have k: "frames (handle_all ?st [(100, START), (100 + 0, ADJUST_TIME (- 10))]) =
        frames ?st @ [\<lparr>drawn = ''-00:00:10'', dotShown = showDot default_config\<rparr>]"
    by blast
  from T ten have m: "timeText (- 10) = CHR ''-'' # timeText (- (- 10))"
    by blast
  from T neg have z: "displayTime (calculateState ?s 100) = Str ''00:00:00''"
    by blast
  show ?thesis
    unfolding split k using f m neg z neg2 z2 by simp
qed

section \<open>Messages without a payload\<close>

lemma update_config_no_payload:
  "onmessage st now (Tagged ''UPDATE_CONFIG'') =
     (if 0 \<le> lastRenderedSecond st then paint (st\<lparr>config := None\<rparr>) (lastRenderedSecond st)
      else Returned (st\<lparr>config := None\<rparr>))"
  by (simp add: Let_def)

lemma paint_config_none:
  "config st = None \<Longrightarrow> threw (paint st d) = (ctx st \<and> width st \<noteq> 0 \<and> height st \<noteq> 0)"
  "config st = None \<Longrightarrow> config (state_of (paint st d)) = None"
  by (simp_all add: paint_def Let_def)

text \<open>
  C7, as the code has it. A message with an unrecognised type tag is ignored: the handler
  returns and the state is unchanged. The handler validates nothing: a message without
  data, and an INIT, RESIZE, SET_TIME or ADJUST_TIME message without a payload, make it
  throw a TypeError before any write, so the state is unchanged but the call does not
  return normally. An UPDATE_CONFIG message without a payload keeps the four clock fields,
  stores \<open>undefined\<close> as the configuration, and throws in the repaint exactly when a
  non-negative second has been rendered and the surface is ready.
\<close>

theorem malformed_messages:
  "(ty \<notin> set [''INIT'', ''RESIZE'', ''UPDATE_CONFIG'', ''START'', ''PAUSE'', ''SET_TIME'',
               ''ADJUST_TIME''] \<longrightarrow>
      onmessage st now (Tagged ty) = Returned st)
   \<and> (ty \<in> set [''INIT'', ''RESIZE'', ''SET_TIME'', ''ADJUST_TIME''] \<longrightarrow>
      onmessage st now (Tagged ty) = Threw TypeError st)
   \<and> onmessage st now NoData = Threw TypeError st
   \<and> (let st' = state_of (onmessage st now (Tagged ''UPDATE_CONFIG''))
       in baseTimeMs st' = baseTimeMs st \<and> startTimeMs st' = startTimeMs st
          \<and> isRunning st' = isRunning st \<and> lastRenderedSecond st' = lastRenderedSecond st
          \<and> config st' = None)
   \<and> (threw (onmessage st now (Tagged ''UPDATE_CONFIG'')) \<longleftrightarrow>
        0 \<le> lastRenderedSecond st \<and> ctx st \<and> width st \<noteq> 0 \<and> height st \<noteq> 0)"
proof (intro conjI impI)
  assume "ty \<notin> set [''INIT'', ''RESIZE'', ''UPDATE_CONFIG'', ''START'', ''PAUSE'', ''SET_TIME'',
               ''ADJUST_TIME'']"
  then show "onmessage st now (Tagged ty) = Returned st"
    by simp
next
  assume "ty \<in> set [''INIT'', ''RESIZE'', ''SET_TIME'', ''ADJUST_TIME'']"
  then show "onmessage st now (Tagged ty) = Threw TypeError st"
    by auto
next
  show "onmessage st now NoData = Threw TypeError st"
    by simp
next
  show "let st' = state_of (onmessage st now (Tagged ''UPDATE_CONFIG''))
       in baseTimeMs st' = baseTimeMs st \<and> startTimeMs st' = startTimeMs st
          \<and> isRunning st' = isRunning st \<and> lastRenderedSecond st' = lastRenderedSecond st
          \<and> config st' = None"
    unfolding Let_def update_config_no_payload
    by (simp add: paint_clock paint_config_none)
next
  show "threw (onmessage st now (Tagged ''UPDATE_CONFIG'')) \<longleftrightarrow>
        0 \<le> lastRenderedSecond st \<and> ctx st \<and> width st \<noteq> 0 \<and> height st \<noteq> 0"
    unfolding update_config_no_payload
    by (simp add: paint_config_none)
qed


theorem malformed_messages_witness:
  "''RESET'' \<notin> set [''INIT'', ''RESIZE'', ''UPDATE_CONFIG'', ''START'', ''PAUSE'', ''SET_TIME'',
               ''ADJUST_TIME'']
   \<and> onmessage initial_state 0 (Tagged ''RESET'') = Returned initial_state
   \<and> ''RESIZE'' \<in> set [''INIT'', ''RESIZE'', ''SET_TIME'', ''ADJUST_TIME'']
   \<and> onmessage initial_state 0 (Tagged ''RESIZE'') = Threw TypeError initial_state
   \<and> \<not> threw (onmessage initial_state 0 (Tagged ''UPDATE_CONFIG''))
   \<and> config (state_of (onmessage initial_state 0 (Tagged ''UPDATE_CONFIG''))) = None"
proof -
  have k1: "''RESET'' \<notin> set [''INIT'', ''RESIZE'', ''UPDATE_CONFIG'', ''START'', ''PAUSE'',
               ''SET_TIME'', ''ADJUST_TIME'']"
    by simp
  have k2: "''RESIZE'' \<in> set [''INIT'', ''RESIZE'', ''SET_TIME'', ''ADJUST_TIME'']"
    by simp
  have k3: "\<not> 0 \<le> lastRenderedSecond initial_state"
    by (simp add: initial_state_def)
  show ?thesis
    using malformed_messages [where ty = "''RESET''" and st = initial_state and now = 0]
      malformed_messages [where ty = "''RESIZE''" and st = initial_state and now = 0]
      k1 k2 k3
    unfolding Let_def
    by (simp del: onmessage.simps)
qed

text \<open>A SET_TIME message without a payload makes the handler throw.\<close>

theorem set_time_without_payload_throws:
  "threw (onmessage initial_state 0 (Tagged ''SET_TIME''))"
  by simp

section \<open>Worker construction failure\<close>

lemma perform_without_worker:
  "\<not> worker s \<Longrightarrow>
     \<not> worker (perform s a) \<and> posted (perform s a) = posted s
     \<and> consoleErrors (perform s a) = consoleErrors s"
  by (cases a)
     (simp_all add: start_def pause_def setTime_def Let_def emitChange_clock postMessage_def)

lemma perform_all_without_worker:
  "\<not> worker s \<Longrightarrow>
     \<not> worker (perform_all s as) \<and> posted (perform_all s as) = posted s
     \<and> consoleErrors (perform_all s as) = consoleErrors s"
proof (induction as arbitrary: s)
  case Nil
  then show ?case by simp
next
  case (Cons a as)
  from perform_without_worker [OF Cons.prems, of a]
  have w: "\<not> worker (perform s a)" and p: "posted (perform s a) = posted s"
    and c: "consoleErrors (perform s a) = consoleErrors s"
    by blast+
  from Cons.IH [OF w] p c show ?case by simp
qed

text \<open>
  C8. When creating the worker throws, the effect catches the exception and logs it: the
  store keeps the initial snapshot (the initial seconds, not running) and a null worker
  reference. After any sequence of \<open>start\<close>, \<open>pause\<close> and \<open>setTime\<close> calls the worker
  reference is still null, nothing has been posted and nothing more has been logged.
\<close>

theorem init_failure_degrades:
  "(let s0 = mount (Inl err) (init_store i);
        s' = perform_all s0 acts
    in snapshot s0 = \<lparr>displayTime = formatTime i, totalSeconds = i, snap_isRunning = False\<rparr>
       \<and> baseDurationMs s0 = real_of_int i * 1000
       \<and> \<not> s_isRunning s0 \<and> \<not> worker s0
       \<and> consoleErrors s0 = [''Clock Worker Init Failed:'']
       \<and> posted s0 = []
       \<and> \<not> worker s' \<and> posted s' = [] \<and> consoleErrors s' = consoleErrors s0)"
proof -
  define s0 where "s0 = mount (Inl err) (init_store i)"
  have init: "snapshot s0 = \<lparr>displayTime = formatTime i, totalSeconds = i, snap_isRunning = False\<rparr>"
    "baseDurationMs s0 = real_of_int i * 1000" "\<not> s_isRunning s0" "\<not> worker s0"
    "consoleErrors s0 = [''Clock Worker Init Failed:'']" "posted s0 = []"
    unfolding s0_def by (simp_all add: mount_def init_store_def)
  have "\<not> worker (perform_all s0 acts) \<and> posted (perform_all s0 acts) = posted s0
     \<and> consoleErrors (perform_all s0 acts) = consoleErrors s0"
    using init(4) by (rule perform_all_without_worker)
  with init show ?thesis
    unfolding Let_def s0_def [symmetric] by simp
qed

theorem init_failure_degrades_witness:
  "displayTime (snapshot (mount (Inl (Error ''Security Error'')) (init_store 0)))
     = Str ''00:00:00''
   \<and> posted (perform_all (mount (Inl (Error ''Security Error'')) (init_store 0))
        [Start 100 101, SetTime 90 200 201, Pause 5100]) = []
   \<and> consoleErrors (perform_all (mount (Inl (Error ''Security Error'')) (init_store 0))
        [Start 100 101, SetTime 90 200 201, Pause 5100]) = [''Clock Worker Init Failed:'']"
  using init_failure_degrades [of "Error ''Security Error''" 0
      "[Start 100 101, SetTime 90 200 201, Pause 5100]"]
  unfolding Let_def
  by (simp add: formatTime_nonneg hours_field_def two_digits_def digit_char_def)

section \<open>Pause/resume conservation\<close>

lemma paint_ready_frame:
  "surface_ready st cfg \<Longrightarrow>
     paint st d = Returned (st\<lparr>paintCalls := paintCalls st @ [d],
                              frames := frames st @ [painted_frame cfg d]\<rparr>)"
  by (simp add: surface_ready_def painted_frame_def paint_def Let_def)

lemma raf_surface:
  "surface_ready (requestAnimationFrame st) cfg = surface_ready st cfg"
  by (simp add: surface_ready_def requestAnimationFrame_def Let_def)

lemma cancel_surface:
  "surface_ready (cancelAnimationFrame st i) cfg = surface_ready st cfg"
  "frames (cancelAnimationFrame st i) = frames st"
  by (simp_all add: surface_ready_def cancelAnimationFrame_def)

lemma start_surface:
  "surface_ready (state_of (onmessage st now START)) cfg = surface_ready st cfg"
  "frames (state_of (onmessage st now START)) = frames st"
  "lastRenderedSecond (state_of (onmessage st now START)) = lastRenderedSecond st"
  by (simp_all add: surface_ready_def requestAnimationFrame_def Let_def)

lemma pause_surface:
  "surface_ready (state_of (onmessage st now PAUSE)) cfg = surface_ready st cfg"
  "frames (state_of (onmessage st now PAUSE)) = frames st"
  "lastRenderedSecond (state_of (onmessage st now PAUSE)) = lastRenderedSecond st"
  by (simp_all add: Let_def surface_ready_def cancelAnimationFrame_def split: option.split)

lemma loop_draws:
  assumes "isRunning st" "surface_ready st cfg"
  shows "frames (state_of (loop st now)) =
           frames st @
           (if kernel_second st now = lastRenderedSecond st then []
            else [painted_frame cfg (kernel_second st now)])"
proof (cases "kernel_second st now = lastRenderedSecond st")
  case True
  with assms(1) show ?thesis by (simp add: loop_frames_same)
next
  case False
  let ?k = "kernel_second st now"
  have k: "\<lfloor>(baseTimeMs st + (now - startTimeMs st)) / 1000\<rfloor> = ?k"
    using assms(1) by (simp add: kernel_second_def kernel_totalMs_def)
  have ready: "surface_ready (st\<lparr>lastRenderedSecond := ?k\<rparr>) cfg"
    using assms(2) by (simp add: surface_ready_def)
  show ?thesis
    using assms(1) False
    by (simp add: loop_def Let_def k paint_ready_frame [OF ready] raf_frames)
qed

lemma pause_resume_clock:
  "(\<not> isRunning st \<longrightarrow>
      (let st1 = state_of (onmessage st t0 START);
           st2 = state_of (onmessage st1 (t0 + 5000) PAUSE);
           st3 = state_of (onmessage st2 (t0 + 5000 + idle) START);
           end = t0 + 5000 + idle + 2000
       in \<not> isRunning st2 \<and> baseTimeMs st2 = baseTimeMs st + 5000
          \<and> kernel_totalMs st2 (t0 + 5000 + idle) = baseTimeMs st + 5000
          \<and> isRunning st3 \<and> kernel_totalMs st3 end = baseTimeMs st + 7000
          \<and> lastRenderedSecond (state_of (loop st3 end)) = \<lfloor>baseTimeMs st / 1000\<rfloor> + 7))
   \<and> (\<not> s_isRunning s \<longrightarrow>
      (let s1 = start s t0 r1;
           s2 = pause s1 (t0 + 5000);
           s3 = start s2 (t0 + 5000 + idle) r2;
           end = t0 + 5000 + idle + 2000
       in \<not> s_isRunning s2 \<and> baseDurationMs s2 = baseDurationMs s + 5000
          \<and> store_totalMs s2 (t0 + 5000 + idle) = baseDurationMs s + 5000
          \<and> s_isRunning s3 \<and> store_totalMs s3 end = baseDurationMs s + 7000
          \<and> totalSeconds (getSnapshot (worker_onmessage s3 ''TICK'' end))
              = max 0 (\<lfloor>baseDurationMs s / 1000\<rfloor> + 7)))"
proof (intro conjI impI)
  assume stopped: "\<not> isRunning st"
  define st1 where "st1 = state_of (onmessage st t0 START)"
  define st2 where "st2 = state_of (onmessage st1 (t0 + 5000) PAUSE)"
  define st3 where "st3 = state_of (onmessage st2 (t0 + 5000 + idle) START)"
  have r1: "isRunning st1" and a1: "startTimeMs st1 = t0"
    unfolding st1_def using stopped by (rule start_kernel_clock)+
  have b1: "baseTimeMs st1 = baseTimeMs st"
    unfolding st1_def by (rule start_kernel_clock)
  have r2: "\<not> isRunning st2"
    unfolding st2_def by (rule pause_kernel_clock)
  have "baseTimeMs st2 = baseTimeMs st1 + (t0 + 5000 - startTimeMs st1)"
    unfolding st2_def using r1 by (rule pause_kernel_clock)
  then have b2: "baseTimeMs st2 = baseTimeMs st + 5000"
    using a1 b1 by simp
  have r3: "isRunning st3" and a3: "startTimeMs st3 = t0 + 5000 + idle"
    unfolding st3_def using r2 by (rule start_kernel_clock)+
  have "baseTimeMs st3 = baseTimeMs st2"
    unfolding st3_def by (rule start_kernel_clock)
  then have b3: "baseTimeMs st3 = baseTimeMs st + 5000"
    using b2 by simp
  have t3: "kernel_totalMs st3 (t0 + 5000 + idle + 2000) = baseTimeMs st + 7000"
    using r3 a3 b3 by (simp add: kernel_totalMs_def)
  have "baseTimeMs st + 5000 + (t0 + 5000 + idle + 2000 - (t0 + 5000 + idle)) = baseTimeMs st + real_of_int 7 * 1000"
    by simp
  then have l3: "lastRenderedSecond (state_of (loop st3 (t0 + 5000 + idle + 2000))) = \<lfloor>baseTimeMs st / 1000\<rfloor> + 7"
    unfolding loop_last [OF r3] a3 b3 by (simp only: floor_ms_plus)
  show "let st1 = state_of (onmessage st t0 START);
           st2 = state_of (onmessage st1 (t0 + 5000) PAUSE);
           st3 = state_of (onmessage st2 (t0 + 5000 + idle) START);
           end = t0 + 5000 + idle + 2000
       in \<not> isRunning st2 \<and> baseTimeMs st2 = baseTimeMs st + 5000
          \<and> kernel_totalMs st2 (t0 + 5000 + idle) = baseTimeMs st + 5000
          \<and> isRunning st3 \<and> kernel_totalMs st3 end = baseTimeMs st + 7000
          \<and> lastRenderedSecond (state_of (loop st3 end)) = \<lfloor>baseTimeMs st / 1000\<rfloor> + 7"
    unfolding Let_def st1_def[symmetric] st2_def[symmetric] st3_def[symmetric]
    using r2 b2 r3 t3 l3 by (simp add: kernel_totalMs_def)
next
  assume stopped: "\<not> s_isRunning s"
  define s1 where "s1 = start s t0 r1"
  define s2 where "s2 = pause s1 (t0 + 5000)"
  define s3 where "s3 = start s2 (t0 + 5000 + idle) r2"
  have r1: "s_isRunning s1" and a1: "s_startTimeMs s1 = t0"
    unfolding s1_def using stopped by (rule start_store_clock)+
  have b1: "baseDurationMs s1 = baseDurationMs s"
    unfolding s1_def by (rule start_store_clock)
  have r2: "\<not> s_isRunning s2"
    unfolding s2_def by (rule pause_store_clock)
  have "baseDurationMs s2 = baseDurationMs s1 + (t0 + 5000 - s_startTimeMs s1)"
    unfolding s2_def using r1 by (rule pause_store_clock)
  then have b2: "baseDurationMs s2 = baseDurationMs s + 5000"
    using a1 b1 by simp
  have r3: "s_isRunning s3" and a3: "s_startTimeMs s3 = t0 + 5000 + idle"
    unfolding s3_def using r2 by (rule start_store_clock)+
  have "baseDurationMs s3 = baseDurationMs s2"
    unfolding s3_def by (rule start_store_clock)
  then have b3: "baseDurationMs s3 = baseDurationMs s + 5000"
    using b2 by simp
  have t3: "store_totalMs s3 (t0 + 5000 + idle + 2000) = baseDurationMs s + real_of_int 7 * 1000"
    using r3 a3 b3 by (simp add: store_totalMs_def)
  have l3: "totalSeconds (getSnapshot (worker_onmessage s3 ''TICK'' (t0 + 5000 + idle + 2000)))
      = max 0 (\<lfloor>baseDurationMs s / 1000\<rfloor> + 7)"
    by (simp only: getSnapshot_def tick_reports calculateState_total t3 floor_ms_plus)
  show "let s1 = start s t0 r1;
           s2 = pause s1 (t0 + 5000);
           s3 = start s2 (t0 + 5000 + idle) r2;
           end = t0 + 5000 + idle + 2000
       in \<not> s_isRunning s2 \<and> baseDurationMs s2 = baseDurationMs s + 5000
          \<and> store_totalMs s2 (t0 + 5000 + idle) = baseDurationMs s + 5000
          \<and> s_isRunning s3 \<and> store_totalMs s3 end = baseDurationMs s + 7000
          \<and> totalSeconds (getSnapshot (worker_onmessage s3 ''TICK'' end))
              = max 0 (\<lfloor>baseDurationMs s / 1000\<rfloor> + 7)"
    unfolding Let_def s1_def[symmetric] s2_def[symmetric] s3_def[symmetric]
    using r2 b2 r3 t3 l3 by (simp add: store_totalMs_def)
qed

lemma pause_resume_frames:
  assumes "\<not> isRunning st" "surface_ready st cfg"
  shows "frames (state_of (loop
          (handle_all st [(t0, START), (t0 + 5000, PAUSE), (t0 + 5000 + idle, START)])
          (t0 + 5000 + idle + 2000))) =
        frames st @
        (if \<lfloor>baseTimeMs st / 1000\<rfloor> + 7 = lastRenderedSecond st then []
         else [painted_frame cfg (\<lfloor>baseTimeMs st / 1000\<rfloor> + 7)])"
proof -
  define st3 where
    "st3 = handle_all st [(t0, START), (t0 + 5000, PAUSE), (t0 + 5000 + idle, START)]"
  have st3: "st3 = state_of (onmessage (state_of (onmessage (state_of (onmessage st t0 START))
      (t0 + 5000) PAUSE)) (t0 + 5000 + idle) START)"
    unfolding st3_def by (simp only: handle_all.simps)
  from pause_resume_clock [of st t0 idle] assms(1)
  have run: "isRunning st3"
    and tot: "kernel_totalMs st3 (t0 + 5000 + idle + 2000) = baseTimeMs st + real_of_int 7 * 1000"
    unfolding st3 Let_def by (simp_all del: onmessage.simps)
  have sec: "kernel_second st3 (t0 + 5000 + idle + 2000) = \<lfloor>baseTimeMs st / 1000\<rfloor> + 7"
    unfolding kernel_second_def tot by (rule floor_ms_plus)
  have ready: "surface_ready st3 cfg" and fr: "frames st3 = frames st"
    and last: "lastRenderedSecond st3 = lastRenderedSecond st"
    unfolding st3 using assms(2) by (simp_all only: start_surface pause_surface)
  show ?thesis
    unfolding st3_def [symmetric] loop_draws [OF run ready] sec fr last ..
qed

text \<open>
  C1, as the code has it. Pause/resume conservation, with the millisecond readings taken
  as exact numbers, for every stopped state, start time \<open>t0\<close> and idle interval. After
  START at \<open>t0\<close>, PAUSE at \<open>t0 + 5 s\<close>, an idle interval and a second START, the total
  (base plus running elapsed) two seconds later is the prior base plus 7 s, in the kernel
  and in the store: PAUSE has folded the 5 s into the base and cleared the running flag,
  so the total does not move while idle. The kernel's render loop then reports the whole
  seconds of the prior base plus 7 and, on a ready surface, paints them unless they are
  the second last rendered. The store's snapshot after the next TICK reports that value
  through the clamp at zero of \<open>calculateState\<close>: the prior base plus 7 s when that is
  not negative, and 0 otherwise.
\<close>

theorem pause_resume_conservation:
  "(\<not> isRunning st \<longrightarrow>
      (let st1 = state_of (onmessage st t0 START);
           st2 = state_of (onmessage st1 (t0 + 5000) PAUSE);
           st3 = state_of (onmessage st2 (t0 + 5000 + idle) START);
           end = t0 + 5000 + idle + 2000
       in \<not> isRunning st2 \<and> baseTimeMs st2 = baseTimeMs st + 5000
          \<and> kernel_totalMs st2 (t0 + 5000 + idle) = baseTimeMs st + 5000
          \<and> isRunning st3 \<and> kernel_totalMs st3 end = baseTimeMs st + 7000
          \<and> lastRenderedSecond (state_of (loop st3 end)) = \<lfloor>baseTimeMs st / 1000\<rfloor> + 7))
   \<and> (\<not> s_isRunning s \<longrightarrow>
      (let s1 = start s t0 r1;
           s2 = pause s1 (t0 + 5000);
           s3 = start s2 (t0 + 5000 + idle) r2;
           end = t0 + 5000 + idle + 2000
       in \<not> s_isRunning s2 \<and> baseDurationMs s2 = baseDurationMs s + 5000
          \<and> store_totalMs s2 (t0 + 5000 + idle) = baseDurationMs s + 5000
          \<and> s_isRunning s3 \<and> store_totalMs s3 end = baseDurationMs s + 7000
          \<and> totalSeconds (getSnapshot (worker_onmessage s3 ''TICK'' end))
              = max 0 (\<lfloor>baseDurationMs s / 1000\<rfloor> + 7)))
   \<and> (\<not> isRunning st \<and> surface_ready st cfg \<longrightarrow>
      frames (state_of (loop
          (handle_all st [(t0, START), (t0 + 5000, PAUSE), (t0 + 5000 + idle, START)])
          (t0 + 5000 + idle + 2000))) =
        frames st @
        (if \<lfloor>baseTimeMs st / 1000\<rfloor> + 7 = lastRenderedSecond st then []
         else [painted_frame cfg (\<lfloor>baseTimeMs st / 1000\<rfloor> + 7)]))"
  using pause_resume_clock [of st t0 idle s r1 r2] pause_resume_frames [of st cfg t0 idle]
  by blast

theorem pause_resume_conservation_witness:
  "\<not> isRunning initial_state \<and> \<not> s_isRunning (init_store 0)
   \<and> lastRenderedSecond
        (state_of (loop (handle_all initial_state [(100, START), (5100, PAUSE), (15100, START)])
           17100)) = 7
   \<and> totalSeconds
        (getSnapshot (worker_onmessage
           (perform_all (init_store 0) [Start 100 101, Pause 5100, Start 15100 15101])
           ''TICK'' 17100)) = 7
   \<and> surface_ready
        (handle_all initial_state
           [(0, INIT (300, 150) True default_config 0), (0, RESIZE 800 200 2)])
        default_config
   \<and> map drawn (frames (state_of (loop
        (handle_all initial_state
           [(0, INIT (300, 150) True default_config 0), (0, RESIZE 800 200 2),
            (100, START), (5100, PAUSE), (15100, START)])
        17100))) = [''00:00:00'', ''00:00:07'']"
proof -
  let ?st = "handle_all initial_state
           [(0, INIT (300, 150) True default_config 0), (0, RESIZE 800 200 2)]"
  have k1: "\<not> isRunning initial_state" and b1: "baseTimeMs initial_state = 0"
    by (simp_all add: initial_state_def)
  have k2: "\<not> s_isRunning (init_store 0)" and b2: "baseDurationMs (init_store 0) = 0"
    by (simp_all add: init_store_def)
  have k3: "\<not> isRunning ?st" "surface_ready ?st default_config" "baseTimeMs ?st = 0"
    "lastRenderedSecond ?st = 0"
    by (simp_all add: kernel_defs surface_ready_def)
  have f3: "map drawn (frames ?st) = [''00:00:00'']"
    by (simp add: kernel_defs timeText_def DIGITS_at_def DIGITS_nth digit_char_def)
  have t7: "drawn (painted_frame default_config 7) = ''00:00:07''"
    by (simp add: painted_frame_def timeText_def DIGITS_at_def DIGITS_nth digit_char_def)
  have e1: "handle_all initial_state [(100, START), (5100, PAUSE), (15100, START)] =
      state_of (onmessage (state_of (onmessage (state_of (onmessage initial_state 100 START))
        5100 PAUSE)) 15100 START)"
    by (simp only: handle_all.simps)
  have e2: "perform_all (init_store 0) [Start 100 101, Pause 5100, Start 15100 15101] =
      start (pause (start (init_store 0) 100 101) 5100) 15100 15101"
    by (simp only: perform_all.simps perform.simps)
  have e3: "handle_all initial_state
           [(0, INIT (300, 150) True default_config 0), (0, RESIZE 800 200 2),
            (100, START), (5100, PAUSE), (15100, START)]
      = handle_all ?st [(100, START), (5100, PAUSE), (15100, START)]"
    by (simp only: handle_all.simps)
  have n: "(100::real) + 5000 = 5100" "(100::real) + 5000 + 10000 = 15100"
    "(100::real) + 5000 + 10000 + 2000 = 17100"
    by simp_all
  note A = pause_resume_conservation [of initial_state 100 10000 "init_store 0" 101 15101
      default_config]
  note B = pause_resume_conservation [of ?st 100 10000 "init_store 0" 101 15101
      default_config]
  from A k1 k2 have a: "lastRenderedSecond
        (state_of (loop (handle_all initial_state [(100, START), (5100, PAUSE), (15100, START)])
           17100)) = 7
     \<and> totalSeconds
        (getSnapshot (worker_onmessage
           (perform_all (init_store 0) [Start 100 101, Pause 5100, Start 15100 15101])
           ''TICK'' 17100)) = 7"
    unfolding e1 e2 Let_def n b1 b2 by (simp del: onmessage.simps)
  from B k3 have "frames (state_of (loop
          (handle_all ?st [(100, START), (5100, PAUSE), (15100, START)]) 17100)) =
        frames ?st @ [painted_frame default_config 7]"
    unfolding n by (simp del: onmessage.simps handle_all.simps)
  then have b: "map drawn (frames (state_of (loop
        (handle_all initial_state
           [(0, INIT (300, 150) True default_config 0), (0, RESIZE 800 200 2),
            (100, START), (5100, PAUSE), (15100, START)])
        17100))) = [''00:00:00'', ''00:00:07'']"
    unfolding e3 using f3 t7 by (simp del: onmessage.simps handle_all.simps)
  from k1 k2 k3(2) a b show ?thesis by blast
qed

text \<open>
  A store created with \<open>-10\<close> seconds reports 0 after the cycle, where the prior base
  plus 7 s is \<open>-3\<close>; the kernel reports \<open>-3\<close>.
\<close>

theorem pause_resume_store_clamps:
  "baseDurationMs (init_store (- 10)) = - 10000
   \<and> totalSeconds
        (getSnapshot (worker_onmessage
           (perform_all (init_store (- 10)) [Start 100 101, Pause 5100, Start 15100 15101])
           ''TICK'' 17100)) = 0
   \<and> lastRenderedSecond
        (state_of (loop
           (handle_all initial_state
              [(0, INIT (300, 150) True default_config (- 10)),
               (100, START), (5100, PAUSE), (15100, START)])
           17100)) = - 3"
  by (simp add: kernel_defs store_defs getSnapshot_def)
section \<open>Re-anchoring on SET_TIME\<close>

lemma set_time_paints:
  "onmessage st now (SET_TIME n) =
     paint (st\<lparr>baseTimeMs := real_of_int n * 1000,
               startTimeMs := (if isRunning st then now else startTimeMs st),
               lastRenderedSecond := n\<rparr>) n"
  by (simp add: Let_def)

lemma set_time_state:
  assumes "surface_ready st cfg"
  shows "state_of (onmessage st now (SET_TIME n)) =
           st\<lparr>baseTimeMs := real_of_int n * 1000,
              startTimeMs := (if isRunning st then now else startTimeMs st),
              lastRenderedSecond := n,
              paintCalls := paintCalls st @ [n],
              frames := frames st @ [painted_frame cfg n]\<rparr>"
proof -
  let ?st' = "st\<lparr>baseTimeMs := real_of_int n * 1000,
               startTimeMs := (if isRunning st then now else startTimeMs st),
               lastRenderedSecond := n\<rparr>"
  have "surface_ready ?st' cfg"
    using assms by (simp add: surface_ready_def)
  then show ?thesis
    unfolding set_time_paints by (simp add: paint_ready_frame)
qed

lemma set_time_frames:
  assumes "surface_ready st cfg"
  shows "frames (state_of (onmessage st now (SET_TIME n))) = frames st @ [painted_frame cfg n]"
  unfolding set_time_state [OF assms] by simp

lemma set_time_then_loop_frames:
  assumes "isRunning st" "surface_ready st cfg"
  shows "frames (state_of (loop (state_of (onmessage st now (SET_TIME n))) (now + d))) =
        frames st @ [painted_frame cfg n] @
        (if \<lfloor>d / 1000\<rfloor> = 0 then [] else [painted_frame cfg (n + \<lfloor>d / 1000\<rfloor>)])"
proof -
  define st' where "st' = state_of (onmessage st now (SET_TIME n))"
  have eq: "st' = st\<lparr>baseTimeMs := real_of_int n * 1000,
              startTimeMs := (if isRunning st then now else startTimeMs st),
              lastRenderedSecond := n,
              paintCalls := paintCalls st @ [n],
              frames := frames st @ [painted_frame cfg n]\<rparr>"
    unfolding st'_def using assms(2) by (rule set_time_state)
  have run: "isRunning st'" and ready: "surface_ready st' cfg"
    and last: "lastRenderedSecond st' = n"
    and fr: "frames st' = frames st @ [painted_frame cfg n]"
    using assms unfolding eq by (simp_all add: surface_ready_def)
  have "kernel_totalMs st' (now + d) = real_of_int n * 1000 + d"
    using assms(1) unfolding eq by (simp add: kernel_totalMs_def)
  then have sec: "kernel_second st' (now + d) = n + \<lfloor>d / 1000\<rfloor>"
    unfolding kernel_second_def by (simp only: floor_ms_shift)
  show ?thesis
    unfolding st'_def [symmetric] loop_draws [OF run ready] sec fr last by simp
qed

lemma set_time_clock:
  "(isRunning st \<longrightarrow>
      (let st' = state_of (onmessage st now (SET_TIME n))
       in baseTimeMs st' = real_of_int n * 1000 \<and> startTimeMs st' = now \<and> isRunning st'
          \<and> kernel_totalMs st' (now + d) = real_of_int n * 1000 + d
          \<and> lastRenderedSecond (state_of (loop st' (now + d))) = n + \<lfloor>d / 1000\<rfloor>))
   \<and> (\<not> isRunning st \<longrightarrow>
      (let st' = state_of (onmessage st now (SET_TIME n))
       in baseTimeMs st' = real_of_int n * 1000 \<and> startTimeMs st' = startTimeMs st
          \<and> \<not> isRunning st'))
   \<and> (s_isRunning s \<longrightarrow>
      (let s' = setTime s n now now2
       in baseDurationMs s' = real_of_int n * 1000 \<and> s_startTimeMs s' = now \<and> s_isRunning s'
          \<and> store_totalMs s' (now + d) = real_of_int n * 1000 + d
          \<and> totalSeconds (getSnapshot (worker_onmessage s' ''TICK'' (now + d)))
              = max 0 (n + \<lfloor>d / 1000\<rfloor>)))
   \<and> (\<not> s_isRunning s \<longrightarrow>
      (let s' = setTime s n now now2
       in baseDurationMs s' = real_of_int n * 1000 \<and> s_startTimeMs s' = s_startTimeMs s
          \<and> \<not> s_isRunning s'))"
proof (intro conjI impI)
  assume run: "isRunning st"
  define st' where "st' = state_of (onmessage st now (SET_TIME n))"
  have r: "isRunning st'" and b: "baseTimeMs st' = real_of_int n * 1000"
    and a: "startTimeMs st' = now"
    unfolding st'_def using run by (simp_all only: setTime_kernel_clock if_True)
  have l: "lastRenderedSecond (state_of (loop st' (now + d))) = n + \<lfloor>d / 1000\<rfloor>"
    unfolding loop_last [OF r] a b by (simp add: floor_ms_shift)
  show "let st' = state_of (onmessage st now (SET_TIME n))
       in baseTimeMs st' = real_of_int n * 1000 \<and> startTimeMs st' = now \<and> isRunning st'
          \<and> kernel_totalMs st' (now + d) = real_of_int n * 1000 + d
          \<and> lastRenderedSecond (state_of (loop st' (now + d))) = n + \<lfloor>d / 1000\<rfloor>"
    unfolding Let_def st'_def[symmetric] using r a b l by (simp add: kernel_totalMs_def)
next
  assume "\<not> isRunning st"
  then show "let st' = state_of (onmessage st now (SET_TIME n))
       in baseTimeMs st' = real_of_int n * 1000 \<and> startTimeMs st' = startTimeMs st
          \<and> \<not> isRunning st'"
    unfolding Let_def by (simp only: setTime_kernel_clock if_False simp_thms)
next
  assume run: "s_isRunning s"
  define s' where "s' = setTime s n now now2"
  have r: "s_isRunning s'" and b: "baseDurationMs s' = real_of_int n * 1000"
    and a: "s_startTimeMs s' = now"
    unfolding s'_def using run by (simp_all only: setTime_store_clock if_True)
  have t: "store_totalMs s' (now + d) = real_of_int n * 1000 + d"
    using r a b by (simp add: store_totalMs_def)
  have l: "totalSeconds (getSnapshot (worker_onmessage s' ''TICK'' (now + d)))
      = max 0 (n + \<lfloor>d / 1000\<rfloor>)"
    by (simp only: getSnapshot_def tick_reports calculateState_total t floor_ms_shift)
  show "let s' = setTime s n now now2
       in baseDurationMs s' = real_of_int n * 1000 \<and> s_startTimeMs s' = now \<and> s_isRunning s'
          \<and> store_totalMs s' (now + d) = real_of_int n * 1000 + d
          \<and> totalSeconds (getSnapshot (worker_onmessage s' ''TICK'' (now + d)))
              = max 0 (n + \<lfloor>d / 1000\<rfloor>)"
    unfolding Let_def s'_def[symmetric] using r a b t l by simp
next
  assume "\<not> s_isRunning s"
  then show "let s' = setTime s n now now2
       in baseDurationMs s' = real_of_int n * 1000 \<and> s_startTimeMs s' = s_startTimeMs s
          \<and> \<not> s_isRunning s'"
    unfolding Let_def by (simp only: setTime_store_clock if_False simp_thms)
qed

text \<open>
  C2, as the code has it, with the millisecond readings taken as exact numbers. SET_TIME
  while running sets the base to \<open>n * 1000\<close> and the anchor to the current reading, so
  that \<open>d\<close> milliseconds later the total is \<open>n * 1000 + d\<close>: nothing of the time elapsed
  before the command is added. The kernel paints \<open>n\<close> at once and its loop then reports
  \<open>n + floor (d / 1000)\<close>, painting it on a ready surface once it differs from \<open>n\<close>. The
  store's snapshot after the next TICK reports \<open>n + floor (d / 1000)\<close> through the clamp
  at zero of \<open>calculateState\<close>: that value when it is not negative, and 0 otherwise.
  While stopped, SET_TIME sets the base and leaves the anchor alone, in the kernel and
  in the store.
\<close>

theorem set_time_reanchors:
  "(isRunning st \<longrightarrow>
      (let st' = state_of (onmessage st now (SET_TIME n))
       in baseTimeMs st' = real_of_int n * 1000 \<and> startTimeMs st' = now \<and> isRunning st'
          \<and> kernel_totalMs st' (now + d) = real_of_int n * 1000 + d
          \<and> lastRenderedSecond (state_of (loop st' (now + d))) = n + \<lfloor>d / 1000\<rfloor>))
   \<and> (\<not> isRunning st \<longrightarrow>
      (let st' = state_of (onmessage st now (SET_TIME n))
       in baseTimeMs st' = real_of_int n * 1000 \<and> startTimeMs st' = startTimeMs st
          \<and> \<not> isRunning st'))
   \<and> (s_isRunning s \<longrightarrow>
      (let s' = setTime s n now now2
       in baseDurationMs s' = real_of_int n * 1000 \<and> s_startTimeMs s' = now \<and> s_isRunning s'
          \<and> store_totalMs s' (now + d) = real_of_int n * 1000 + d
          \<and> totalSeconds (getSnapshot (worker_onmessage s' ''TICK'' (now + d)))
              = max 0 (n + \<lfloor>d / 1000\<rfloor>)))
   \<and> (\<not> s_isRunning s \<longrightarrow>
      (let s' = setTime s n now now2
       in baseDurationMs s' = real_of_int n * 1000 \<and> s_startTimeMs s' = s_startTimeMs s
          \<and> \<not> s_isRunning s'))
   \<and> (surface_ready st cfg \<longrightarrow>
      frames (state_of (onmessage st now (SET_TIME n))) = frames st @ [painted_frame cfg n])
   \<and> (isRunning st \<and> surface_ready st cfg \<longrightarrow>
      frames (state_of (loop (state_of (onmessage st now (SET_TIME n))) (now + d))) =
        frames st @ [painted_frame cfg n] @
        (if \<lfloor>d / 1000\<rfloor> = 0 then [] else [painted_frame cfg (n + \<lfloor>d / 1000\<rfloor>)]))"
  using set_time_clock [of st now n d s now2] set_time_frames [of st cfg now n]
    set_time_then_loop_frames [of st cfg now n d]
  by blast

theorem set_time_reanchors_witness:
  "isRunning (state_of (onmessage initial_state 100 START))
   \<and> lastRenderedSecond
        (state_of (loop (handle_all initial_state [(100, START), (5100, SET_TIME 3600)]) 6100))
       = 3601
   \<and> \<not> isRunning initial_state
   \<and> startTimeMs (state_of (onmessage initial_state 5100 (SET_TIME 3600))) = 0
   \<and> s_isRunning (start (init_store 0) 100 101)
   \<and> totalSeconds
        (getSnapshot (worker_onmessage
           (perform_all (init_store 0) [Start 100 101, SetTime 3600 5100 5101]) ''TICK'' 6100))
       = 3601
   \<and> \<not> s_isRunning (init_store 0)
   \<and> s_startTimeMs (setTime (init_store 0) 3600 5100 5101) = 0
   \<and> map drawn (frames (state_of (loop
        (handle_all initial_state
           [(0, INIT (300, 150) True default_config 0), (0, RESIZE 800 200 2),
            (100, START), (5100, SET_TIME 3600)])
        6100))) = [''00:00:00'', ''01:00:00'', ''01:00:01'']"
proof -
  let ?st = "handle_all initial_state
           [(0, INIT (300, 150) True default_config 0), (0, RESIZE 800 200 2), (100, START)]"
  have k1: "isRunning (state_of (onmessage initial_state 100 START))"
    by (simp add: kernel_defs)
  have k2: "\<not> isRunning initial_state" and a2: "startTimeMs initial_state = 0"
    by (simp_all add: initial_state_def)
  have k3: "s_isRunning (start (init_store 0) 100 101)"
    by (simp add: store_defs)
  have k4: "\<not> s_isRunning (init_store 0)" and a4: "s_startTimeMs (init_store 0) = 0"
    by (simp_all add: init_store_def)
  have k5: "isRunning ?st \<and> surface_ready ?st default_config"
    by (simp add: kernel_defs surface_ready_def)
  have f5: "map drawn (frames ?st) = [''00:00:00'']"
    by (simp add: kernel_defs timeText_def DIGITS_at_def DIGITS_nth digit_char_def)
  have t5: "drawn (painted_frame default_config 3600) = ''01:00:00''"
    "drawn (painted_frame default_config 3601) = ''01:00:01''"
    by (simp_all add: painted_frame_def timeText_def DIGITS_at_def DIGITS_nth digit_char_def)
  have e1: "handle_all initial_state [(100, START), (5100, SET_TIME 3600)] =
      state_of (onmessage (state_of (onmessage initial_state 100 START)) 5100 (SET_TIME 3600))"
    by (simp only: handle_all.simps)
  have e2: "perform_all (init_store 0) [Start 100 101, SetTime 3600 5100 5101] =
      setTime (start (init_store 0) 100 101) 3600 5100 5101"
    by (simp only: perform_all.simps perform.simps)
  have e3: "handle_all initial_state
           [(0, INIT (300, 150) True default_config 0), (0, RESIZE 800 200 2),
            (100, START), (5100, SET_TIME 3600)]
      = state_of (onmessage ?st 5100 (SET_TIME 3600))"
    by (simp only: handle_all.simps)
  have n: "(5100::real) + 1000 = 6100"
    by simp
  note A = set_time_reanchors [where st = "state_of (onmessage initial_state 100 START)"
        and now = 5100 and n = 3600 and d = 1000 and s = "start (init_store 0) 100 101"
        and ?now2.0 = 5101 and cfg = default_config]
  note B = set_time_reanchors [where st = initial_state and now = 5100 and n = 3600
        and s = "init_store 0" and ?now2.0 = 5101 and cfg = default_config]
  note C = set_time_reanchors [where st = ?st and now = 5100 and n = 3600 and d = 1000
        and cfg = default_config]
  from A B k1 k2 k3 k4 have a: "lastRenderedSecond
        (state_of (loop (handle_all initial_state [(100, START), (5100, SET_TIME 3600)]) 6100))
       = 3601
     \<and> startTimeMs (state_of (onmessage initial_state 5100 (SET_TIME 3600))) = 0
     \<and> totalSeconds
        (getSnapshot (worker_onmessage
           (perform_all (init_store 0) [Start 100 101, SetTime 3600 5100 5101]) ''TICK'' 6100))
       = 3601
     \<and> s_startTimeMs (setTime (init_store 0) 3600 5100 5101) = 0"
    unfolding e1 e2 Let_def n a2 a4 by (simp del: onmessage.simps)
  from C k5 have "frames (state_of (loop (state_of (onmessage ?st 5100 (SET_TIME 3600)))
        (5100 + 1000))) =
      frames ?st @ [painted_frame default_config 3600] @
        (if \<lfloor>(1000::real) / 1000\<rfloor> = 0 then []
         else [painted_frame default_config (3600 + \<lfloor>(1000::real) / 1000\<rfloor>)])"
    by blast
  then have b: "map drawn (frames (state_of (loop
        (handle_all initial_state
           [(0, INIT (300, 150) True default_config 0), (0, RESIZE 800 200 2),
            (100, START), (5100, SET_TIME 3600)])
        6100))) = [''00:00:00'', ''01:00:00'', ''01:00:01'']"
    unfolding e3 n using f5 t5 by (simp del: onmessage.simps handle_all.simps)
  from k1 k2 k3 k4 a b show ?thesis by blast
qed

text \<open>
  On a running store, \<open>setTime(-10)\<close> and one second more report 0, where \<open>n\<close> plus the
  second elapsed is \<open>-9\<close>; the kernel reports \<open>-9\<close>.
\<close>

theorem set_time_store_clamps:
  "s_isRunning (perform_all (init_store 0) [Start 100 101, SetTime (- 10) 5100 5101])
   \<and> totalSeconds
        (getSnapshot (worker_onmessage
           (perform_all (init_store 0) [Start 100 101, SetTime (- 10) 5100 5101])
           ''TICK'' 6100)) = 0
   \<and> lastRenderedSecond
        (state_of (loop (handle_all initial_state [(100, START), (5100, SET_TIME (- 10))])
           6100)) = - 9"
  by (simp add: kernel_defs store_defs getSnapshot_def)
section \<open>The kernel's painted string\<close>




end
